theory Spec2Isabelle
  imports Main "HOL-Library.AList" "HOL-Library.Sublist" "HOL-Library.Multiset"
    "HOL-Library.Word"
begin

section \<open>JavaScript values and their conversion to strings\<close>

text \<open>
  The client (\<^verbatim>\<open>client.ts\<close>) and its one resource module (\<^verbatim>\<open>modules/people.ts\<close>)
  are embedded as functions on explicit state. A thrown exception and a rejected promise
  are both the left injection of a sum; the errors the platform raises carry the message
  V8 gives them.

  A string that the code only matches, compares or concatenates is a \<open>string\<close>. The two
  strings that reach \<^verbatim>\<open>btoa\<close>, which tells code units above \<open>0xFF\<close> from the others, are
  lists of 16-bit code units.
\<close>

datatype error =
    Error string
  | TypeError string
  | SyntaxError string
  | InvalidCharacterError string

text \<open>
  A number is either an integer from \<open>-2^53\<close> to \<open>2^53 - 1\<close>, all of which are numbers and
  print as their plain decimal digits, or any other number (a fraction, \<^verbatim>\<open>NaN\<close>, an infinity,
  an integer beyond that range), which is given by the string that \<^verbatim>\<open>Number::toString\<close>
  yields for it: printing is all this code does with a number.
\<close>

datatype number = Integer "54 word" | Other string

text \<open>
  The values of type \<^verbatim>\<open>any\<close> that the model covers: a filter's \<^verbatim>\<open>value\<close> and the body that
  \<^verbatim>\<open>response.json()\<close> parses. \<open>JObject ps\<close> is a plain object, one whose prototype is
  \<^verbatim>\<open>Object.prototype\<close>, with the own data properties \<open>ps\<close>; no property holds a function.
\<close>

datatype jsvalue =
    JUndefined
  | JNull
  | JBoolean bool
  | JNumber number
  | JString string
  | JArray "jsvalue list"
  | JObject "(string \<times> jsvalue) list"

text \<open>\<^verbatim>\<open>Array.prototype.join\<close>, on an array of strings.\<close>

fun join :: "string list \<Rightarrow> string \<Rightarrow> string" where
  "join [] sep = []"
| "join [x] sep = x"
| "join (x # y # ys) sep = x @ sep @ join (y # ys) sep"

definition digit_char :: "nat \<Rightarrow> char" where
  "digit_char d = ''0123456789'' ! d"

fun decimal :: "nat \<Rightarrow> string" where
  "decimal n = (if n < 10 then [digit_char n] else decimal (n div 10) @ [digit_char (n mod 10)])"

declare decimal.simps [simp del]

text \<open>\<^verbatim>\<open>Number::toString\<close>\<close>

fun Number_toString :: "number \<Rightarrow> string" where
  "Number_toString (Integer w) =
     (if sint w < 0 then ''-'' @ decimal (nat (- sint w)) else decimal (nat (sint w)))"
| "Number_toString (Other printed) = printed"

declare Number_toString.simps [simp del]

text \<open>
  \<^verbatim>\<open>ToString\<close>, which a template literal applies to each \<^verbatim>\<open>${...}\<close>. An array prints its
  elements joined by commas, a null or undefined element as the empty string. A plain
  object prints as \<^verbatim>\<open>[object Object]\<close> through the \<^verbatim>\<open>toString\<close> it inherits; when it has an
  own property \<^verbatim>\<open>toString\<close>, which is not a function, the conversion falls back on
  \<^verbatim>\<open>valueOf\<close>, finds no primitive value and throws.
\<close>

fun ToString :: "jsvalue \<Rightarrow> error + string"
  and ToString_elements :: "jsvalue list \<Rightarrow> error + string list" where
  "ToString JUndefined = Inr ''undefined''"
| "ToString JNull = Inr ''null''"
| "ToString (JBoolean b) = Inr (if b then ''true'' else ''false'')"
| "ToString (JNumber n) = Inr (Number_toString n)"
| "ToString (JString s) = Inr s"
| "ToString (JArray xs) =
     (case ToString_elements xs of
        Inl e \<Rightarrow> Inl e
      | Inr printed \<Rightarrow> Inr (join printed '',''))"
| "ToString (JObject ps) =
     (if ''toString'' \<in> set (map fst ps)
      then Inl (TypeError ''Cannot convert object to primitive value'')
      else Inr ''[object Object]'')"
| "ToString_elements [] = Inr []"
| "ToString_elements (x # xs) =
     (case (case x of JUndefined \<Rightarrow> Inr [] | JNull \<Rightarrow> Inr [] | _ \<Rightarrow> ToString x) of
        Inl e \<Rightarrow> Inl e
      | Inr s \<Rightarrow>
          (case ToString_elements xs of
             Inl e \<Rightarrow> Inl e
           | Inr printed \<Rightarrow> Inr (s # printed)))"

text \<open>
  The property reads \<^verbatim>\<open>filter.operator\<close> and \<^verbatim>\<open>filter.value\<close>, for these two names, which no
  built-in prototype defines: reading from \<^verbatim>\<open>null\<close> or \<^verbatim>\<open>undefined\<close> throws, a plain object
  gives its own property, and everything else gives \<^verbatim>\<open>undefined\<close>.
\<close>

fun Get :: "jsvalue \<Rightarrow> string \<Rightarrow> error + jsvalue" where
  "Get JUndefined name =
     Inl (TypeError (''Cannot read properties of undefined (reading '' @ [CHR 0x27] @ name @
                     [CHR 0x27] @ '')''))"
| "Get JNull name =
     Inl (TypeError (''Cannot read properties of null (reading '' @ [CHR 0x27] @ name @
                     [CHR 0x27] @ '')''))"
| "Get (JObject ps) name = Inr (case map_of ps name of None \<Rightarrow> JUndefined | Some v \<Rightarrow> v)"
| "Get other name = Inr JUndefined"

section \<open>Configuration and client state\<close>

text \<open>
  \<^verbatim>\<open>PcoClientConfigPersonalAccessToken | PcoClientConfigOAuth\<close>: the constructor tells the
  variants apart with \<^verbatim>\<open>'personalAccessToken' in config\<close> and \<^verbatim>\<open>'token' in config\<close>, so a
  configuration is one record of optional fields, \<open>None\<close> for a key that is absent. A
  key that is present holds a value of its declared type.
\<close>

record PcoClientConfig =
  personalAccessToken :: "16 word list option"
  appId :: "16 word list option"
  token :: "string option"
  clientId :: "string option"
  clientSecret :: "string option"
  refreshToken :: "string option"
  expiresAt :: "number option"
  customApiBaseUrl :: "string option"
  version :: "string option"

record order_by =
  field :: string
  symbol :: string

record page =
  limit :: number
  offset :: number

record filter_entry =
  operator :: string
  value' :: jsvalue

text \<open>
  The object \<^verbatim>\<open>this.filters\<close>, used as a dictionary: its own properties in creation order,
  and its prototype, which is \<^verbatim>\<open>Object.prototype\<close> (\<open>None\<close>) until an assignment to the name
  \<^verbatim>\<open>__proto__\<close> replaces it by the object assigned.
\<close>

record filters_object =
  properties :: "(string \<times> filter_entry) list"
  prototype :: "filter_entry option"

text \<open>
  The private fields of \<^verbatim>\<open>PcoClient\<close>. \<^verbatim>\<open>customApiBaseUrl: string | boolean\<close> only ever
  holds a string or \<^verbatim>\<open>false\<close>, which is \<open>None\<close> here; \<^verbatim>\<open>version\<close> is a string or undefined.
\<close>

record PcoClient =
  customApiBaseUrl :: "string option"
  version :: "string option"
  authentication :: string
  includes' :: "string list"
  filters :: filters_object
  order :: order_by
  pagination :: page

section \<open>Construction\<close>

definition isDigit :: "char \<Rightarrow> bool" where
  "isDigit c = (c \<in> set ''0123456789'')"

definition isHex :: "char \<Rightarrow> bool" where
  "isHex c = (c \<in> set ''0123456789abcdef'')"

text \<open>\<^verbatim>\<open>/^\d{4}-\d{2}-\d{2}$/\<close>: no flags, so \<^verbatim>\<open>\d\<close> is an ASCII digit and \<^verbatim>\<open>$\<close> is the end of input.\<close>

definition matches_version :: "string \<Rightarrow> bool" where
  "matches_version s =
     (length s = 10 \<and> list_all isDigit (take 4 s) \<and> s ! 4 = CHR ''-'' \<and>
      list_all isDigit (take 2 (drop 5 s)) \<and> s ! 7 = CHR ''-'' \<and>
      list_all isDigit (drop 8 s))"

text \<open>\<^verbatim>\<open>token.match(/^[0-9a-f]{64}$|^pco_tok_[0-9a-f]{72}$/) !== null\<close>\<close>

definition validateToken :: "string \<Rightarrow> bool" where
  "validateToken t =
     ((length t = 64 \<and> list_all isHex t) \<or>
      (length t = 80 \<and> take 8 t = ''pco_tok_'' \<and> list_all isHex (drop 8 t)))"

text \<open>
  \<^verbatim>\<open>btoa\<close>: base64 with padding, each code unit one byte; a code unit above \<open>0xFF\<close> makes it
  throw.
\<close>

definition b64 :: "nat \<Rightarrow> char" where
  "b64 n = ''ABCDEFGHIJKLMNOPQRSTUVWXYZabcdefghijklmnopqrstuvwxyz0123456789+/'' ! n"

fun btoa_bytes :: "nat list \<Rightarrow> string" where
  "btoa_bytes [] = []"
| "btoa_bytes [a] = [b64 (a div 4), b64 ((a mod 4) * 16), CHR ''='', CHR ''='']"
| "btoa_bytes [a, b] =
     [b64 (a div 4), b64 ((a mod 4) * 16 + b div 16), b64 ((b mod 16) * 4), CHR ''='']"
| "btoa_bytes (a # b # c # rest) =
     [b64 (a div 4), b64 ((a mod 4) * 16 + b div 16), b64 ((b mod 16) * 4 + c div 64),
      b64 (c mod 64)] @ btoa_bytes rest"

definition btoa :: "16 word list \<Rightarrow> error + string" where
  "btoa s =
     (if list_all (\<lambda>unit. unit \<le> 255) s then Inr (btoa_bytes (map unat s))
      else Inl (InvalidCharacterError ''Invalid character''))"

text \<open>The code units of a string literal of the source.\<close>

definition units :: "string \<Rightarrow> 16 word list" where
  "units s = map of_char s"

text \<open>String concatenation converts an undefined operand to \<^verbatim>\<open>undefined\<close>.\<close>

definition concat_operand :: "16 word list option \<Rightarrow> 16 word list" where
  "concat_operand s = (case s of None \<Rightarrow> units ''undefined'' | Some x \<Rightarrow> x)"

text \<open>
  The constructor, with the field initialisers of the class. The version is checked
  first, and only when it is truthy: a non-empty string.
\<close>

definition constructor :: "PcoClientConfig \<Rightarrow> error + PcoClient" where
  "constructor config =
     (case (case PcoClientConfig.version config of
              None \<Rightarrow> Inr None
            | Some v \<Rightarrow>
                if v \<noteq> [] then
                  (if \<not> matches_version v then Inl (Error ''Invalid version format'')
                   else Inr (Some v))
                else Inr None) of
        Inl e \<Rightarrow> Inl e
      | Inr ver \<Rightarrow>
          (case personalAccessToken config of
             Some pat \<Rightarrow>
               (case btoa (concat_operand (appId config) @ units '':'' @ pat) of
                  Inl e \<Rightarrow> Inl e
                | Inr encoded \<Rightarrow>
                    Inr \<lparr> customApiBaseUrl = PcoClientConfig.customApiBaseUrl config,
                          version = ver,
                          authentication = ''Basic '' @ encoded,
                          includes' = [], filters = \<lparr>properties = [], prototype = None\<rparr>,
                          order = \<lparr>field = ''created_at'', symbol = ''''\<rparr>,
                          pagination = \<lparr>limit = Integer 10, offset = Integer 0\<rparr> \<rparr>)
           | None \<Rightarrow>
               (case token config of
                  Some t \<Rightarrow>
                    if \<not> validateToken t then Inl (Error ''Invalid token format'')
                    else
                      Inr \<lparr> customApiBaseUrl = PcoClientConfig.customApiBaseUrl config,
                            version = ver,
                            authentication = ''Bearer '' @ t,
                            includes' = [], filters = \<lparr>properties = [], prototype = None\<rparr>,
                            order = \<lparr>field = ''created_at'', symbol = ''''\<rparr>,
                            pagination = \<lparr>limit = Integer 10, offset = Integer 0\<rparr> \<rparr>
                | None \<Rightarrow> Inl (Error ''Invalid configuration''))))"

section \<open>Query builder\<close>

definition include' :: "PcoClient \<Rightarrow> string list \<Rightarrow> PcoClient" where
  "include' this relations = this\<lparr>includes' := relations\<rparr>"

text \<open>
  \<^verbatim>\<open>this.filters[field] = { operator, value }\<close>: an existing property keeps its place and
  takes the new value, a new one is created last. The name \<^verbatim>\<open>__proto__\<close> is not stored as a
  property: the assignment calls the setter that \<^verbatim>\<open>Object.prototype\<close> defines for it, which
  makes the object assigned the prototype of \<^verbatim>\<open>this.filters\<close>.
\<close>

definition where' :: "PcoClient \<Rightarrow> string \<Rightarrow> string \<Rightarrow> jsvalue \<Rightarrow> PcoClient" where
  "where' this fld oper v =
     (if fld = ''__proto__'' then
        this\<lparr>filters := (filters this)\<lparr>prototype := Some \<lparr>operator = oper, value' = v\<rparr>\<rparr>\<rparr>
      else
        this\<lparr>filters := (filters this)\<lparr>properties :=
          AList.update fld \<lparr>operator = oper, value' = v\<rparr> (properties (filters this))\<rparr>\<rparr>)"

datatype direction = asc | desc

text \<open>\<^verbatim>\<open>direction: 'asc' | 'desc' = 'desc'\<close>: \<open>None\<close> is the omitted argument.\<close>

definition orderBy :: "PcoClient \<Rightarrow> string \<Rightarrow> direction option \<Rightarrow> PcoClient" where
  "orderBy this fld dir =
     (let sym = (case (case dir of None \<Rightarrow> desc | Some d \<Rightarrow> d) of
                   asc \<Rightarrow> ''-''
                 | desc \<Rightarrow> '''')
      in this\<lparr>order := \<lparr>field = fld, symbol = sym\<rparr>\<rparr>)"

definition paginate :: "PcoClient \<Rightarrow> number \<Rightarrow> number \<Rightarrow> PcoClient" where
  "paginate this lim off = this\<lparr>pagination := \<lparr>limit = lim, offset = off\<rparr>\<rparr>"

text \<open>
  The order in which \<^verbatim>\<open>for ... in\<close> visits the own properties of an object: the keys that
  are array indices (canonical decimal numerals below \<open>2^32 - 1\<close>) in ascending numeric
  order, then every other key in creation order.
\<close>

definition numeral_value :: "string \<Rightarrow> int" where
  "numeral_value k = foldl (\<lambda>a c. 10 * a + (of_char c - 48)) 0 k"

definition isArrayIndex :: "string \<Rightarrow> bool" where
  "isArrayIndex k =
     (k \<noteq> [] \<and> list_all isDigit k \<and> (if hd k = CHR ''0'' then k = ''0'' else True) \<and>
      numeral_value k < 4294967295)"

definition own_order :: "(string \<times> 'v) list \<Rightarrow> (string \<times> 'v) list" where
  "own_order ps =
     sort_key (\<lambda>p. numeral_value (fst p)) (filter (\<lambda>p. isArrayIndex (fst p)) ps) @
     filter (\<lambda>p. \<not> isArrayIndex (fst p)) ps"

text \<open>
  What \<^verbatim>\<open>for (let field in this.filters)\<close> visits, each field with the value that
  \<^verbatim>\<open>this.filters[field]\<close> reads for it: the own properties, each an object
  \<^verbatim>\<open>{ operator, value }\<close>; then, when a prototype was assigned, its two properties
  \<^verbatim>\<open>operator\<close> and \<^verbatim>\<open>value\<close>, unless an own property of the same name hides them.
\<close>

definition entry_object :: "filter_entry \<Rightarrow> jsvalue" where
  "entry_object f = JObject [(''operator'', JString (operator f)), (''value'', value' f)]"

definition for_in :: "filters_object \<Rightarrow> (string \<times> jsvalue) list" where
  "for_in fs =
     map (\<lambda>(fld, f). (fld, entry_object f)) (own_order (properties fs)) @
     (case prototype fs of
        None \<Rightarrow> []
      | Some p \<Rightarrow>
          filter (\<lambda>(fld, v). fld \<notin> set (map fst (properties fs)))
            [(''operator'', JString (operator p)), (''value'', value' p)])"

text \<open>The text \<^verbatim>\<open>&where[${field}]${filter.operator}${filter.value}\<close> of one turn of the loop.\<close>

definition where_segment :: "string \<Rightarrow> jsvalue \<Rightarrow> error + string" where
  "where_segment fld flt =
     (case Get flt ''operator'' of
        Inl e \<Rightarrow> Inl e
      | Inr oper \<Rightarrow>
          (case ToString oper of
             Inl e \<Rightarrow> Inl e
           | Inr oper_text \<Rightarrow>
               (case Get flt ''value'' of
                  Inl e \<Rightarrow> Inl e
                | Inr v \<Rightarrow>
                    (case ToString v of
                       Inl e \<Rightarrow> Inl e
                     | Inr value_text \<Rightarrow>
                         Inr (''&where['' @ fld @ '']'' @ oper_text @ value_text)))))"

text \<open>The loop: it stops at the first turn that throws.\<close>

fun append_filters :: "string \<Rightarrow> (string \<times> jsvalue) list \<Rightarrow> error + string" where
  "append_filters query [] = Inr query"
| "append_filters query ((fld, flt) # rest) =
     (case where_segment fld flt of
        Inl e \<Rightarrow> Inl e
      | Inr segment \<Rightarrow> append_filters (query @ segment) rest)"

text \<open>
  \<^verbatim>\<open>buildQuery\<close> returns the query string and leaves the builder fields at their
  defaults. When the loop throws, \<^verbatim>\<open>buildQuery\<close> throws before it has assigned anything,
  and the client is as it was.
\<close>

definition buildQuery :: "PcoClient \<Rightarrow> (error + string) \<times> PcoClient" where
  "buildQuery this =
     (case append_filters (''?include='' @ join (includes' this) '','') (for_in (filters this)) of
        Inl e \<Rightarrow> (Inl e, this)
      | Inr query \<Rightarrow>
          (let query = query @ ''&order='' @ symbol (order this) @ field (order this);
               query = query @ ''&limit='' @ Number_toString (limit (pagination this)) @
                         ''&offset='' @ Number_toString (offset (pagination this))
           in (Inr query,
               this\<lparr> includes' := [], filters := \<lparr>properties = [], prototype = None\<rparr>,
                     order := \<lparr>field = ''created_at'', symbol = ''''\<rparr>,
                     pagination := \<lparr>limit = Integer 10, offset = Integer 0\<rparr> \<rparr>)))"

section \<open>Requests\<close>

text \<open>
  \<^verbatim>\<open>RequestInit\<close>, with the members this code reads or writes; \<^verbatim>\<open>headers\<close> is the object
  that the spreads copy, keyed by header name.
\<close>

record RequestInit =
  method' :: "string option"
  headers :: "string \<rightharpoonup> string"
  body :: "string option"

text \<open>
  What \<^verbatim>\<open>request\<close> reads of a \<^verbatim>\<open>Response\<close>. \<^verbatim>\<open>status\<close> is an unsigned 16-bit integer, as the
  Fetch standard declares it. \<^verbatim>\<open>json\<close> is the outcome of \<^verbatim>\<open>response.json()\<close>: the parsed
  body, or the error it rejects with when the body is not JSON. \<^verbatim>\<open>response.ok\<close> is true for
  the statuses 200 to 299.
\<close>

record response =
  status :: "16 word"
  statusText :: string
  json :: "error + jsvalue"

definition ok :: "response \<Rightarrow> bool" where
  "ok r = (200 \<le> status r \<and> status r \<le> 299)"

text \<open>
  The transport is a parameter: \<^verbatim>\<open>fetch(url, init)\<close> answers with a response or rejects.
  So is \<^verbatim>\<open>JSON.stringify\<close>, which returns a string or undefined, or throws.
\<close>

type_synonym fetch = "string \<Rightarrow> RequestInit \<Rightarrow> error + response"

type_synonym 'b stringify = "'b \<Rightarrow> error + string option"

text \<open>The first half of \<^verbatim>\<open>request\<close>: the two arguments of its call to \<^verbatim>\<open>fetch\<close>.\<close>

definition fetch_input :: "PcoClient \<Rightarrow> string \<Rightarrow> RequestInit \<Rightarrow> string \<times> RequestInit" where
  "fetch_input this endpoint options =
     (let options =
            (case version this of
               None \<Rightarrow> options
             | Some v \<Rightarrow>
                 if v \<noteq> [] then options\<lparr>headers := (headers options)(''X-PCO-API-Version'' \<mapsto> v)\<rparr>
                 else options);
          apiBaseUrl =
            (case customApiBaseUrl this of
               None \<Rightarrow> ''https://api.planningcenteronline.com''
             | Some u \<Rightarrow> if u \<noteq> [] then u else ''https://api.planningcenteronline.com'')
      in (apiBaseUrl @ endpoint,
          options\<lparr>headers := (headers options)(''Content-Type'' \<mapsto> ''application/json'',
                                                  ''Authorization'' \<mapsto> authentication this)\<rparr>))"

text \<open>The second half: the call, the status check and the parsed body.\<close>

definition request :: "fetch \<Rightarrow> PcoClient \<Rightarrow> string \<Rightarrow> RequestInit \<Rightarrow> error + jsvalue" where
  "request fetch this endpoint options =
     (case (case fetch_input this endpoint options of (url, init) \<Rightarrow> fetch url init) of
        Inl e \<Rightarrow> Inl e
      | Inr response \<Rightarrow>
          if \<not> ok response then
            Inl (Error (''API request failed with status '' @
                        Number_toString (Integer (ucast (status response))) @
                        [CHR 0x0A] @ statusText response @ [CHR 0x0A] @
                        ''More details: https://developer.planning.center/docs/#/overview/errors''))
          else json response)"

text \<open>
  The terminal requests. Each returns the outcome of the call and the client after it.
  \<^verbatim>\<open>buildQuery\<close> runs while the endpoint argument is evaluated, before \<^verbatim>\<open>JSON.stringify\<close> and
  before \<^verbatim>\<open>request\<close>; when it throws, so does the terminal request, and nothing is sent.
\<close>

definition get :: "fetch \<Rightarrow> PcoClient \<Rightarrow> string \<Rightarrow> (error + jsvalue) \<times> PcoClient" where
  "get fetch this endpoint =
     (case buildQuery this of
        (Inl e, this) \<Rightarrow> (Inl e, this)
      | (Inr query, this) \<Rightarrow>
          (request fetch this (endpoint @ query) \<lparr>method' = None, headers = Map.empty, body = None\<rparr>,
           this))"

definition post ::
  "fetch \<Rightarrow> 'b stringify \<Rightarrow> PcoClient \<Rightarrow> string \<Rightarrow> 'b \<Rightarrow> (error + jsvalue) \<times> PcoClient" where
  "post fetch JSON_stringify this endpoint b =
     (case buildQuery this of
        (Inl e, this) \<Rightarrow> (Inl e, this)
      | (Inr query, this) \<Rightarrow>
          (case JSON_stringify b of
             Inl e \<Rightarrow> (Inl e, this)
           | Inr text \<Rightarrow>
               (request fetch this (endpoint @ query)
                  \<lparr>method' = Some ''POST'', headers = Map.empty, body = text\<rparr>,
                this)))"

definition patch ::
  "fetch \<Rightarrow> 'b stringify \<Rightarrow> PcoClient \<Rightarrow> string \<Rightarrow> 'b \<Rightarrow> (error + jsvalue) \<times> PcoClient" where
  "patch fetch JSON_stringify this endpoint b =
     (case buildQuery this of
        (Inl e, this) \<Rightarrow> (Inl e, this)
      | (Inr query, this) \<Rightarrow>
          (case JSON_stringify b of
             Inl e \<Rightarrow> (Inl e, this)
           | Inr text \<Rightarrow>
               (request fetch this (endpoint @ query)
                  \<lparr>method' = Some ''PATCH'', headers = Map.empty, body = text\<rparr>,
                this)))"

definition delete :: "fetch \<Rightarrow> PcoClient \<Rightarrow> string \<Rightarrow> (error + jsvalue) \<times> PcoClient" where
  "delete fetch this endpoint =
     (case buildQuery this of
        (Inl e, this) \<Rightarrow> (Inl e, this)
      | (Inr query, this) \<Rightarrow>
          (request fetch this (endpoint @ query)
             \<lparr>method' = Some ''DELETE'', headers = Map.empty, body = None\<rparr>,
           this))"

text \<open>\<^verbatim>\<open>PcoPeople.getPerson\<close>\<close>

definition getPerson :: "fetch \<Rightarrow> PcoClient \<Rightarrow> (error + jsvalue) \<times> PcoClient" where
  "getPerson fetch this =
     (case buildQuery this of
        (Inl e, this) \<Rightarrow> (Inl e, this)
      | (Inr query, this) \<Rightarrow>
          (request fetch this (''/people/v2/people'' @ query)
             \<lparr>method' = None, headers = Map.empty, body = None\<rparr>,
           this))"

section \<open>Chains of calls, sample values and abbreviations of the statements\<close>

abbreviation example_client :: PcoClient where
  "example_client \<equiv>
     \<lparr> customApiBaseUrl = None, version = Some ''2024-06-09'',
       authentication = ''Basic YXBwOnNlY3JldA=='',
       includes' = [], filters = \<lparr>properties = [], prototype = None\<rparr>,
       order = \<lparr>field = ''created_at'', symbol = ''''\<rparr>,
       pagination = \<lparr>limit = Integer 10, offset = Integer 0\<rparr> \<rparr>"

abbreviation offline :: fetch where
  "offline \<equiv> (\<lambda>url init. Inl (TypeError ''fetch failed''))"

abbreviation answering :: "response \<Rightarrow> fetch" where
  "answering r \<equiv> (\<lambda>url init. Inr r)"

text \<open>
  A chain of builder calls on one client, \<^verbatim>\<open>client.include(...).where(...)\<close> and so on, is
  the left fold of \<open>call\<close> over the list of the calls.
\<close>

datatype builder_call =
    Include "string list"
  | Where string string jsvalue
  | OrderBy string "direction option"
  | Paginate number number

fun call :: "PcoClient \<Rightarrow> builder_call \<Rightarrow> PcoClient" where
  "call this (Include relations) = include' this relations"
| "call this (Where fld oper v) = where' this fld oper v"
| "call this (OrderBy fld dir) = orderBy this fld dir"
| "call this (Paginate lim off) = paginate this lim off"

fun isPaginate :: "builder_call \<Rightarrow> bool" where
  "isPaginate (Paginate lim off) = True"
| "isPaginate c = False"

text \<open>The builder fields as the class initialises them and as \<^verbatim>\<open>buildQuery\<close> leaves them.\<close>

abbreviation cleared :: "PcoClient \<Rightarrow> PcoClient" where
  "cleared this \<equiv>
     this\<lparr> includes' := [], filters := \<lparr>properties = [], prototype = None\<rparr>,
           order := \<lparr>field = ''created_at'', symbol = ''''\<rparr>,
           pagination := \<lparr>limit = Integer 10, offset = Integer 0\<rparr> \<rparr>"

text \<open>
  A filter value that has no string conversion: a plain object with an own property
  \<^verbatim>\<open>toString\<close> that is not a function, \<^verbatim>\<open>{ toString: 1 }\<close>.
\<close>

abbreviation unprintable :: jsvalue where
  "unprintable \<equiv> JObject [(''toString'', JNumber (Integer 1))]"

abbreviation example_config :: PcoClientConfig where
  "example_config \<equiv>
     \<lparr> personalAccessToken = Some (units ''secret''), appId = Some (units ''app''),
       token = None,
       clientId = None, clientSecret = None, refreshToken = None, expiresAt = None,
       PcoClientConfig.customApiBaseUrl = None,
       PcoClientConfig.version = Some ''2024-06-09'' \<rparr>"

text \<open>
  The version check lets a configuration through when the key is absent, when the
  string is empty, or when it has the form \<^verbatim>\<open>YYYY-MM-DD\<close>.
\<close>

abbreviation version_accepted :: "PcoClientConfig \<Rightarrow> bool" where
  "version_accepted config \<equiv>
     (case PcoClientConfig.version config of
        None \<Rightarrow> True
      | Some v \<Rightarrow> v = [] \<or> matches_version v)"

text \<open>The string \<^verbatim>\<open>config.appId + ':' + config.personalAccessToken\<close> that \<^verbatim>\<open>btoa\<close> is given.\<close>

abbreviation credentials :: "PcoClientConfig \<Rightarrow> 16 word list \<Rightarrow> 16 word list" where
  "credentials config pat \<equiv> concat_operand (appId config) @ units '':'' @ pat"

abbreviation both_keys_config :: PcoClientConfig where
  "both_keys_config \<equiv>
     \<lparr> personalAccessToken = Some (units ''secret''), appId = Some (units ''app''),
       token = Some ''not-a-token'',
       clientId = Some ''id'', clientSecret = Some ''shh'', refreshToken = Some ''again'',
       expiresAt = Some (Integer 0),
       PcoClientConfig.customApiBaseUrl = None,
       PcoClientConfig.version = Some ''2024-06-09'' \<rparr>"

abbreviation oauth_config :: "string \<Rightarrow> string option \<Rightarrow> PcoClientConfig" where
  "oauth_config t ver \<equiv>
     \<lparr> personalAccessToken = None, appId = None, token = Some t,
       clientId = Some ''id'', clientSecret = Some ''shh'', refreshToken = Some ''again'',
       expiresAt = Some (Integer 0),
       PcoClientConfig.customApiBaseUrl = None,
       PcoClientConfig.version = ver \<rparr>"

abbreviation legacy_token :: string where
  "legacy_token \<equiv> ''0123456789abcdef0123456789abcdef0123456789abcdef0123456789abcdef''"

text \<open>
  The authentication branch lets a configuration through when it has a
  \<^verbatim>\<open>personalAccessToken\<close> key and \<^verbatim>\<open>btoa\<close> accepts the credentials, or when it has no such key
  and a \<^verbatim>\<open>token\<close> key whose token is well formed.
\<close>

abbreviation authentication_accepted :: "PcoClientConfig \<Rightarrow> bool" where
  "authentication_accepted config \<equiv>
     (case personalAccessToken config of
        Some pat \<Rightarrow> list_all (\<lambda>unit. unit \<le> 255) (credentials config pat)
      | None \<Rightarrow> (case token config of Some t \<Rightarrow> validateToken t | None \<Rightarrow> False))"

text \<open>
  A transport that refuses every call whose \<^verbatim>\<open>X-PCO-API-Version\<close> header is not \<open>v\<close>, and
  otherwise answers as \<open>fetch\<close> does.
\<close>

abbreviation expecting :: "string \<Rightarrow> fetch \<Rightarrow> fetch" where
  "expecting v fetch \<equiv>
     (\<lambda>url init.
        if headers init ''X-PCO-API-Version'' = Some v then fetch url init
        else Inl (Error ''X-PCO-API-Version is not sent''))"

abbreviation failure_message :: "response \<Rightarrow> string" where
  "failure_message response \<equiv>
     ''API request failed with status '' @ Number_toString (Integer (ucast (status response))) @
     [CHR 0x0A] @ statusText response @ [CHR 0x0A] @
     ''More details: https://developer.planning.center/docs/#/overview/errors''"

abbreviation empty_people :: jsvalue where
  "empty_people \<equiv>
     JObject [(''data'', JArray []),
              (''meta'', JObject [(''total_count'', JNumber (Integer 0))])]"

abbreviation no_content :: response where
  "no_content \<equiv>
     \<lparr> status = 204, statusText = ''No Content'',
       json = Inl (SyntaxError ''Unexpected end of JSON input'') \<rparr>"

section \<open>The loop over the filters\<close>

lemma where_segment_entry:
  "where_segment k (entry_object f) =
     (case ToString (value' f) of
        Inl e \<Rightarrow> Inl e
      | Inr s \<Rightarrow> Inr (''&where['' @ k @ '']'' @ operator f @ s))"
  by (simp add: where_segment_def entry_object_def)

lemma where_segment_shape:
  assumes "where_segment k flt = Inr segment"
  shows "\<exists>rest. segment = ''&where['' @ rest"
  using assms by (auto simp: where_segment_def split: sum.splits)

lemma append_filters_Inr:
  assumes "append_filters query ps = Inr built"
  shows "\<exists>segments.
     list_all2 (\<lambda>(fld, flt) segment. where_segment fld flt = Inr segment) ps segments \<and>
     built = query @ concat segments"
  using assms
proof (induction ps arbitrary: query)
  case Nil
  then show ?case by simp
next
  case (Cons p ps)
  obtain fld flt where p: "p = (fld, flt)"
    by (cases p)
  from Cons.prems obtain segment where s: "where_segment fld flt = Inr segment"
    and rest: "append_filters (query @ segment) ps = Inr built"
    by (auto simp: p split: sum.splits)
  from Cons.IH [OF rest] obtain segments where
    "list_all2 (\<lambda>(fld, flt) segment. where_segment fld flt = Inr segment) ps segments"
    and "built = (query @ segment) @ concat segments"
    by blast
  then have "list_all2 (\<lambda>(fld, flt) segment. where_segment fld flt = Inr segment)
      (p # ps) (segment # segments) \<and> built = query @ concat (segment # segments)"
    by (simp add: p s)
  then show ?case by blast
qed

lemma append_filters_built:
  assumes "list_all2 (\<lambda>(fld, flt) segment. where_segment fld flt = Inr segment) ps segments"
  shows "append_filters query ps = Inr (query @ concat segments)"
  using assms
proof (induction ps arbitrary: query segments)
  case Nil
  then show ?case by simp
next
  case (Cons p ps)
  obtain fld flt where p: "p = (fld, flt)"
    by (cases p)
  from Cons.prems obtain segment rest where s: "segments = segment # rest"
    and here: "where_segment fld flt = Inr segment"
    and there: "list_all2 (\<lambda>(fld, flt) segment. where_segment fld flt = Inr segment) ps rest"
    by (cases segments) (auto simp: p)
  from Cons.IH [OF there, of "query @ segment"] show ?case
    by (simp add: p s here)
qed

lemma append_filters_returns:
  "(\<exists>built. append_filters query ps = Inr built) \<longleftrightarrow>
     list_all (\<lambda>(fld, flt). \<not> isl (where_segment fld flt)) ps"
proof (induction ps arbitrary: query)
  case Nil
  then show ?case by simp
next
  case (Cons p ps)
  obtain fld flt where p: "p = (fld, flt)"
    by (cases p)
  show ?case
  proof (cases "where_segment fld flt")
    case (Inl e)
    then show ?thesis by (simp add: p)
  next
    case (Inr segment)
    with Cons.IH [of "query @ segment"] show ?thesis by (simp add: p)
  qed
qed

lemma buildQuery_Inr:
  "fst (buildQuery this) = Inr q \<longleftrightarrow>
     (\<exists>built.
        append_filters (''?include='' @ join (includes' this) '','') (for_in (filters this)) =
          Inr built \<and>
        q = built @ ''&order='' @ symbol (order this) @ field (order this) @
            ''&limit='' @ Number_toString (limit (pagination this)) @
            ''&offset='' @ Number_toString (offset (pagination this)))"
  by (auto simp: buildQuery_def Let_def split: sum.splits)

lemma buildQuery_returns:
  "(\<exists>q. fst (buildQuery this) = Inr q) \<longleftrightarrow>
     list_all (\<lambda>(fld, flt). \<not> isl (where_segment fld flt)) (for_in (filters this))"
  unfolding buildQuery_Inr
  using append_filters_returns
    [of "''?include='' @ join (includes' this) '',''" "for_in (filters this)"]
  by blast

lemma buildQuery_throws:
  "(\<exists>e. fst (buildQuery this) = Inl e) \<longleftrightarrow> \<not> (\<exists>q. fst (buildQuery this) = Inr q)"
  by (cases "fst (buildQuery this)") simp_all

lemma buildQuery_state:
  "snd (buildQuery this) =
     (case fst (buildQuery this) of Inl e \<Rightarrow> this | Inr q \<Rightarrow> cleared this)"
  by (simp add: buildQuery_def Let_def split: sum.splits)

lemma get_state: "snd (get fetch this endpoint) = snd (buildQuery this)"
  by (simp add: get_def split: prod.splits sum.splits)

lemma post_state: "snd (post fetch JSON_stringify this endpoint b) = snd (buildQuery this)"
  by (simp add: post_def split: prod.splits sum.splits)

lemma patch_state: "snd (patch fetch JSON_stringify this endpoint b) = snd (buildQuery this)"
  by (simp add: patch_def split: prod.splits sum.splits)

lemma delete_state: "snd (delete fetch this endpoint) = snd (buildQuery this)"
  by (simp add: delete_def split: prod.splits sum.splits)

lemma getPerson_state: "snd (getPerson fetch this) = snd (buildQuery this)"
  by (simp add: getPerson_def split: prod.splits sum.splits)

lemma buildQuery_shape:
  assumes "fst (buildQuery this) = Inr q"
  shows "\<exists>segments.
     list_all2 (\<lambda>(fld, flt) segment. where_segment fld flt = Inr segment)
       (for_in (filters this)) segments \<and>
     q = ''?include='' @ join (includes' this) '','' @ concat segments @
         ''&order='' @ symbol (order this) @ field (order this) @
         ''&limit='' @ Number_toString (limit (pagination this)) @
         ''&offset='' @ Number_toString (offset (pagination this))"
proof -
  from assms obtain built where
    b: "append_filters (''?include='' @ join (includes' this) '','') (for_in (filters this)) =
      Inr built"
    and q: "q = built @ ''&order='' @ symbol (order this) @ field (order this) @
            ''&limit='' @ Number_toString (limit (pagination this)) @
            ''&offset='' @ Number_toString (offset (pagination this))"
    unfolding buildQuery_Inr by blast
  from append_filters_Inr [OF b] obtain segments where
    "list_all2 (\<lambda>(fld, flt) segment. where_segment fld flt = Inr segment)
       (for_in (filters this)) segments"
    and "built = (''?include='' @ join (includes' this) '','') @ concat segments"
    by blast
  then show ?thesis
    unfolding q by (intro exI [of _ segments]) simp
qed


lemma set_own_order: "set (own_order ps) = set ps"
  by (auto simp add: own_order_def)

lemma for_in_own:
  assumes "prototype fs = None"
  shows "for_in fs = map (\<lambda>(fld, f). (fld, entry_object f)) (own_order (properties fs))"
  using assms by (simp add: for_in_def)


lemma sublist_in_context:
  assumes "sublist xs ys"
  shows "sublist xs (ps @ ys @ ss)"
proof -
  from assms obtain a b where "ys = a @ xs @ b"
    unfolding sublist_def by blast
  then have "ps @ ys @ ss = (ps @ a) @ xs @ (b @ ss)"
    by simp
  then show ?thesis
    by (metis sublist_appendI)
qed



lemma suffix_tl_sublist: "suffix (c # xs) ys \<Longrightarrow> sublist xs ys"
  by (metis suffix_ConsD suffix_imp_sublist)





lemma order_in_query:
  assumes "fst (buildQuery this) = Inr q"
  shows "suffix (''&order='' @ symbol (order this) @ field (order this) @
           ''&limit='' @ Number_toString (limit (pagination this)) @
           ''&offset='' @ Number_toString (offset (pagination this))) q"
proof -
  from buildQuery_shape [OF assms] obtain segments where
    "q = (''?include='' @ join (includes' this) '','' @ concat segments) @
         ''&order='' @ symbol (order this) @ field (order this) @
         ''&limit='' @ Number_toString (limit (pagination this)) @
         ''&offset='' @ Number_toString (offset (pagination this))"
    by auto
  then show ?thesis
    unfolding suffix_def by blast
qed

lemma page_in_query:
  assumes "fst (buildQuery this) = Inr q"
  shows "suffix (''&limit='' @ Number_toString (limit (pagination this)) @
           ''&offset='' @ Number_toString (offset (pagination this))) q"
proof -
  from buildQuery_shape [OF assms] obtain segments where
    "q = (''?include='' @ join (includes' this) '','' @ concat segments @
         ''&order='' @ symbol (order this) @ field (order this)) @
         ''&limit='' @ Number_toString (limit (pagination this)) @
         ''&offset='' @ Number_toString (offset (pagination this))"
    by auto
  then show ?thesis
    unfolding suffix_def by blast
qed

lemma include_in_query:
  assumes "fst (buildQuery this) = Inr q"
  shows "prefix (''?include='' @ join (includes' this) '','' @ ''&'') q"
proof -
  from buildQuery_shape [OF assms] obtain segments where
    all: "list_all2 (\<lambda>(fld, flt) segment. where_segment fld flt = Inr segment)
       (for_in (filters this)) segments"
    and shape: "q = ''?include='' @ join (includes' this) '','' @ concat segments @
         ''&order='' @ symbol (order this) @ field (order this) @
         ''&limit='' @ Number_toString (limit (pagination this)) @
         ''&offset='' @ Number_toString (offset (pagination this))"
    by blast
  show ?thesis
  proof (cases segments)
    case Nil
    then show ?thesis
      by (simp add: shape)
  next
    case (Cons segment rest)
    with all obtain p ps where "for_in (filters this) = p # ps"
      by (cases "for_in (filters this)") auto
    with all Cons have "where_segment (fst p) (snd p) = Inr segment"
      by (cases p) simp
    from where_segment_shape [OF this] obtain tail where "segment = ''&where['' @ tail"
      by blast
    then show ?thesis
      by (simp add: shape Cons)
  qed
qed

lemma own_filters_return:
  assumes "prototype (filters this) = None"
  shows "(\<exists>q. fst (buildQuery this) = Inr q) \<longleftrightarrow>
     list_all (\<lambda>(fld, f). \<not> isl (ToString (value' f))) (properties (filters this))"
proof -
  have one: "\<not> isl (where_segment k (entry_object f)) \<longleftrightarrow> \<not> isl (ToString (value' f))" for k f
    by (simp add: where_segment_entry split: sum.splits)
  have "list_all (\<lambda>(fld, flt). \<not> isl (where_segment fld flt)) (for_in (filters this)) \<longleftrightarrow>
      list_all (\<lambda>(fld, f). \<not> isl (ToString (value' f))) (own_order (properties (filters this)))"
    by (simp add: for_in_own [OF assms] list_all_iff one split: prod.splits)
  also have "\<dots> \<longleftrightarrow>
      list_all (\<lambda>(fld, f). \<not> isl (ToString (value' f))) (properties (filters this))"
    by (simp add: list_all_iff set_own_order)
  finally show ?thesis
    by (simp only: buildQuery_returns)
qed

lemma constructor_builder_defaults:
  assumes "constructor config = Inr client"
  shows "cleared client = client"
  using assms
  by (auto simp: constructor_def split: option.splits if_splits sum.splits)

lemma cleared_returns: "\<exists>q. fst (buildQuery (cleared this)) = Inr q"
  by (simp add: own_filters_return)

lemma no_filters_query:
  assumes "filters this = \<lparr>properties = [], prototype = None\<rparr>"
  shows "fst (buildQuery this) =
     Inr (''?include='' @ join (includes' this) '','' @
          ''&order='' @ symbol (order this) @ field (order this) @
          ''&limit='' @ Number_toString (limit (pagination this)) @
          ''&offset='' @ Number_toString (offset (pagination this)))"
  by (simp add: buildQuery_def for_in_def own_order_def assms Let_def)

text \<open>
  C1, as the code has it. When \<^verbatim>\<open>buildQuery\<close> returns, the includes, filters, order and
  pagination are \<open>[]\<close>, \<open>{}\<close>, \<open>{field: 'created_at', symbol: ''}\<close> and
  \<open>{limit: 10, offset: 0}\<close>, whatever they were before; and so they are after \<^verbatim>\<open>get\<close>,
  \<^verbatim>\<open>post\<close>, \<^verbatim>\<open>patch\<close>, \<^verbatim>\<open>delete\<close> and \<^verbatim>\<open>getPerson\<close>, whatever the transport answers and whether
  or not the request succeeds. \<^verbatim>\<open>buildQuery\<close> returns exactly when every turn of its loop
  finds a string for the filter: for a client with no filter under \<^verbatim>\<open>__proto__\<close>, when
  every filter value has a string conversion. When a turn throws, \<^verbatim>\<open>buildQuery\<close> and the
  terminal request throw and the client is as it was before the call.
\<close>

theorem buildQuery_resets_builder_state:
  fixes fetch :: fetch and JSON_stringify :: "'b stringify"
  shows
    "(\<forall>after \<in> {snd (buildQuery this),
                 snd (get fetch this endpoint),
                 snd (post fetch JSON_stringify this endpoint b),
                 snd (patch fetch JSON_stringify this endpoint b),
                 snd (delete fetch this endpoint),
                 snd (getPerson fetch this)}.
        ((\<exists>q. fst (buildQuery this) = Inr q) \<longrightarrow>
           includes' after = [] \<and> filters after = \<lparr>properties = [], prototype = None\<rparr> \<and>
           order after = \<lparr>field = ''created_at'', symbol = ''''\<rparr> \<and>
           pagination after = \<lparr>limit = Integer 10, offset = Integer 0\<rparr>) \<and>
        ((\<exists>e. fst (buildQuery this) = Inl e) \<longrightarrow> after = this)) \<and>
     ((\<exists>q. fst (buildQuery this) = Inr q) \<longleftrightarrow>
        list_all (\<lambda>(fld, flt). \<not> isl (where_segment fld flt)) (for_in (filters this))) \<and>
     (prototype (filters this) = None \<longrightarrow>
        ((\<exists>q. fst (buildQuery this) = Inr q) \<longleftrightarrow>
           list_all (\<lambda>(fld, f). \<not> isl (ToString (value' f))) (properties (filters this)))) \<and>
     ToString JUndefined = Inr ''undefined'' \<and> ToString JNull = Inr ''null'' \<and>
     ToString (JBoolean flag) = Inr (if flag then ''true'' else ''false'') \<and>
     ToString (JNumber n) = Inr (Number_toString n) \<and> ToString (JString s) = Inr s \<and>
     (''toString'' \<notin> set (map fst ps) \<longrightarrow> ToString (JObject ps) = Inr ''[object Object]'') \<and>
     (''toString'' \<in> set (map fst ps) \<longrightarrow> isl (ToString (JObject ps)))"
proof -
  have states: "snd (get fetch this endpoint) = snd (buildQuery this)"
    "snd (post fetch JSON_stringify this endpoint b) = snd (buildQuery this)"
    "snd (patch fetch JSON_stringify this endpoint b) = snd (buildQuery this)"
    "snd (delete fetch this endpoint) = snd (buildQuery this)"
    "snd (getPerson fetch this) = snd (buildQuery this)"
    by (rule get_state post_state patch_state delete_state getPerson_state)+
  have reset: "includes' (snd (buildQuery this)) = [] \<and>
      filters (snd (buildQuery this)) = \<lparr>properties = [], prototype = None\<rparr> \<and>
      order (snd (buildQuery this)) = \<lparr>field = ''created_at'', symbol = ''''\<rparr> \<and>
      pagination (snd (buildQuery this)) = \<lparr>limit = Integer 10, offset = Integer 0\<rparr>"
    if "\<exists>q. fst (buildQuery this) = Inr q"
    using that by (auto simp: buildQuery_state)
  have kept: "snd (buildQuery this) = this" if "\<exists>e. fst (buildQuery this) = Inl e"
    using that by (auto simp: buildQuery_state)
  show ?thesis
    using reset kept buildQuery_returns [of this] own_filters_return [of this]
    by (simp add: states)
qed

theorem buildQuery_resets_builder_state_witness:
  "includes' (snd (get offline
      (paginate (where' (include' example_client [''emails'']) ''id'' ''='' (JNumber (Integer 1)))
         (Integer 25) (Integer 50))
      ''/people/v2'')) = [] \<and>
   filters (snd (get offline
      (paginate (where' (include' example_client [''emails'']) ''id'' ''='' (JNumber (Integer 1)))
         (Integer 25) (Integer 50))
      ''/people/v2'')) = \<lparr>properties = [], prototype = None\<rparr> \<and>
   order (snd (get offline
      (paginate (where' (include' example_client [''emails'']) ''id'' ''='' (JNumber (Integer 1)))
         (Integer 25) (Integer 50))
      ''/people/v2'')) = \<lparr>field = ''created_at'', symbol = ''''\<rparr> \<and>
   pagination (snd (get offline
      (paginate (where' (include' example_client [''emails'']) ''id'' ''='' (JNumber (Integer 1)))
         (Integer 25) (Integer 50))
      ''/people/v2'')) = \<lparr>limit = Integer 10, offset = Integer 0\<rparr> \<and>
   snd (get offline (where' example_client ''id'' ''='' unprintable) ''/people/v2'') =
     where' example_client ''id'' ''='' unprintable"
proof -
  let ?c = "paginate (where' (include' example_client [''emails'']) ''id'' ''='' (JNumber (Integer 1)))
         (Integer 25) (Integer 50)"
  let ?bad = "where' example_client ''id'' ''='' unprintable"
  have built: "\<exists>q. fst (buildQuery ?c) = Inr q"
    by (simp add: own_filters_return paginate_def where'_def include'_def)
  have thrown: "\<exists>e. fst (buildQuery ?bad) = Inl e"
    by (simp add: buildQuery_throws own_filters_return where'_def)
  note good = buildQuery_resets_builder_state
    [of ?c offline "''/people/v2''" "\<lambda>b. Inr (Some ''{}'')" JNull,
     THEN conjunct1, THEN bspec, of "snd (get offline ?c ''/people/v2'')",
     THEN conjunct1, rule_format, OF _ built]
  note bad = buildQuery_resets_builder_state
    [of ?bad offline "''/people/v2''" "\<lambda>b. Inr (Some ''{}'')" JNull,
     THEN conjunct1, THEN bspec, of "snd (get offline ?bad ''/people/v2'')",
     THEN conjunct2, rule_format, OF _ thrown]
  have a: "includes' (snd (get offline ?c ''/people/v2'')) = [] \<and>
      filters (snd (get offline ?c ''/people/v2'')) = \<lparr>properties = [], prototype = None\<rparr> \<and>
      order (snd (get offline ?c ''/people/v2'')) = \<lparr>field = ''created_at'', symbol = ''''\<rparr> \<and>
      pagination (snd (get offline ?c ''/people/v2'')) = \<lparr>limit = Integer 10, offset = Integer 0\<rparr>"
    by (rule good) simp
  have b: "snd (get offline ?bad ''/people/v2'') = ?bad"
    by (rule bad) simp
  from a b show ?thesis
    by (simp only: simp_thms)
qed

theorem buildQuery_resets_builder_state_counterexample:
  "fst (buildQuery (where' example_client ''id'' ''='' unprintable)) =
     Inl (TypeError ''Cannot convert object to primitive value'') \<and>
   filters (snd (buildQuery (where' example_client ''id'' ''='' unprintable))) =
     \<lparr>properties = [(''id'', \<lparr>operator = ''='', value' = unprintable\<rparr>)], prototype = None\<rparr> \<and>
   filters (snd (getPerson offline (where' example_client ''id'' ''='' unprintable))) =
     \<lparr>properties = [(''id'', \<lparr>operator = ''='', value' = unprintable\<rparr>)], prototype = None\<rparr>"
  by (simp add: getPerson_state buildQuery_state)
     (simp add: buildQuery_def where'_def for_in_def own_order_def isArrayIndex_def isDigit_def
        where_segment_def entry_object_def)

section \<open>The query string\<close>

lemma Number_toString_examples:
  "Number_toString (Integer 0) = ''0''" "Number_toString (Integer 1) = ''1''"
  "Number_toString (Integer 3) = ''3''" "Number_toString (Integer 10) = ''10''"
  "Number_toString (Integer 25) = ''25''" "Number_toString (Integer 50) = ''50''"
  "Number_toString (Integer (ucast (200 :: 16 word))) = ''200''"
  "Number_toString (Integer (ucast (204 :: 16 word))) = ''204''"
  "Number_toString (Integer (ucast (404 :: 16 word))) = ''404''"
  by (simp_all add: Number_toString.simps decimal.simps digit_char_def)


lemma digit_char_value:
  assumes "d < 10"
  shows "of_char (digit_char d) = 48 + int d" and "isDigit (digit_char d)"
    and "digit_char d = CHR ''0'' \<longleftrightarrow> d = 0"
proof -
  from assms have "d = 0 \<or> d = 1 \<or> d = 2 \<or> d = 3 \<or> d = 4 \<or> d = 5 \<or> d = 6 \<or> d = 7 \<or>
      d = 8 \<or> d = 9"
    by arith
  then show "of_char (digit_char d) = 48 + int d" and "isDigit (digit_char d)"
    and "digit_char d = CHR ''0'' \<longleftrightarrow> d = 0"
    by (auto simp: digit_char_def isDigit_def)
qed

lemma numeral_value_snoc:
  "numeral_value (ds @ [c]) = 10 * numeral_value ds + (of_char c - 48)"
  by (simp add: numeral_value_def)

lemma numeral_value_decimal: "numeral_value (decimal n) = int n"
proof (induction n rule: decimal.induct)
  case (1 n)
  show ?case
  proof (cases "n < 10")
    case True
    then show ?thesis
      by (subst decimal.simps) (simp add: numeral_value_def digit_char_value(1))
  next
    case False
    have "n mod 10 < 10"
      by simp
    moreover have "10 * int (n div 10) + int (n mod 10) = int n"
      by presburger
    ultimately show ?thesis
      using digit_char_value(1) [of "n mod 10"] "1.IH" [OF False] False
      by (subst decimal.simps) (simp add: numeral_value_snoc)
  qed
qed

lemma decimal_digits: "decimal n \<noteq> [] \<and> list_all isDigit (decimal n)"
proof (induction n rule: decimal.induct)
  case (1 n)
  show ?case
  proof (cases "n < 10")
    case True
    then show ?thesis
      by (subst (1 2) decimal.simps) (simp add: digit_char_value(2))
  next
    case False
    have "n mod 10 < 10"
      by simp
    from digit_char_value(2) [OF this] "1.IH" [OF False] False show ?thesis
      by (subst (1 2) decimal.simps) simp
  qed
qed










lemma returns_same_filters:
  assumes "filters a = filters b"
  shows "(\<exists>q. fst (buildQuery a) = Inr q) \<longleftrightarrow> (\<exists>q. fst (buildQuery b) = Inr q)"
  by (simp only: buildQuery_returns assms)

lemma fresh_order:
  "fst (buildQuery (orderBy (cleared this) fld (Some asc))) =
     Inr (''?include=&order=-'' @ fld @ ''&limit=10&offset=0'')"
  "fst (buildQuery (orderBy (cleared this) fld (Some desc))) =
     Inr (''?include=&order='' @ fld @ ''&limit=10&offset=0'')"
  by (simp_all add: no_filters_query orderBy_def Number_toString_examples)

lemma fresh_include:
  "fst (buildQuery (include' (include' (cleared this) r1) r2)) =
     Inr (''?include='' @ join r2 '','' @ ''&order=created_at&limit=10&offset=0'')"
  by (simp add: no_filters_query include'_def Number_toString_examples)

text \<open>
  C5: \<^verbatim>\<open>orderBy(field, 'asc')\<close> stores the symbol \<^verbatim>\<open>-\<close>; \<^verbatim>\<open>orderBy(field, 'desc')\<close> and
  \<^verbatim>\<open>orderBy(field)\<close> store the empty symbol. The query built next ends with
  \<^verbatim>\<open>&order=\<close>, the symbol, the field and the pagination, so it contains \<^verbatim>\<open>order=-created_at\<close>
  after \<^verbatim>\<open>orderBy('created_at', 'asc')\<close> and \<^verbatim>\<open>order=created_at\<close> after
  \<^verbatim>\<open>orderBy('created_at', 'desc')\<close>. \<^verbatim>\<open>orderBy\<close> has no part in whether a query is built: one is
  built after it exactly when one would have been built before it, and on a client as
  constructed or reset the query is \<^verbatim>\<open>?include=&order=\<close>, the symbol, the field and
  \<^verbatim>\<open>&limit=10&offset=0\<close>.
\<close>

theorem orderBy_inverted_symbol:
  "order (orderBy this fld (Some asc)) = \<lparr>field = fld, symbol = ''-''\<rparr> \<and>
   order (orderBy this fld (Some desc)) = \<lparr>field = fld, symbol = ''''\<rparr> \<and>
   order (orderBy this fld None) = \<lparr>field = fld, symbol = ''''\<rparr> \<and>
   (fst (buildQuery (orderBy this fld (Some asc))) = Inr q \<longrightarrow>
      suffix (''&order=-'' @ fld @
              ''&limit='' @ Number_toString (limit (pagination this)) @
              ''&offset='' @ Number_toString (offset (pagination this))) q \<and>
      sublist (''order=-'' @ fld) q) \<and>
   (fst (buildQuery (orderBy this fld (Some desc))) = Inr q \<longrightarrow>
      suffix (''&order='' @ fld @
              ''&limit='' @ Number_toString (limit (pagination this)) @
              ''&offset='' @ Number_toString (offset (pagination this))) q \<and>
      sublist (''order='' @ fld) q) \<and>
   fst (buildQuery (orderBy this fld None)) = fst (buildQuery (orderBy this fld (Some desc))) \<and>
   (fst (buildQuery (orderBy this ''created_at'' (Some asc))) = Inr q \<longrightarrow>
      sublist ''order=-created_at'' q) \<and>
   (fst (buildQuery (orderBy this ''created_at'' (Some desc))) = Inr q \<longrightarrow>
      sublist ''order=created_at'' q) \<and>
   ((\<exists>q. fst (buildQuery (orderBy this fld dir)) = Inr q) \<longleftrightarrow>
      (\<exists>q. fst (buildQuery this) = Inr q)) \<and>
   fst (buildQuery (orderBy (cleared this) fld (Some asc))) =
     Inr (''?include=&order=-'' @ fld @ ''&limit=10&offset=0'') \<and>
   fst (buildQuery (orderBy (cleared this) fld (Some desc))) =
     Inr (''?include=&order='' @ fld @ ''&limit=10&offset=0'')"
proof -
  have a: "suffix (''&order=-'' @ f @
           ''&limit='' @ Number_toString (limit (pagination this)) @
           ''&offset='' @ Number_toString (offset (pagination this))) q"
    if "fst (buildQuery (orderBy this f (Some asc))) = Inr q" for f
    using order_in_query [OF that] by (simp add: orderBy_def)
  have d: "suffix (''&order='' @ f @
           ''&limit='' @ Number_toString (limit (pagination this)) @
           ''&offset='' @ Number_toString (offset (pagination this))) q"
    if "fst (buildQuery (orderBy this f (Some desc))) = Inr q" for f
    using order_in_query [OF that] by (simp add: orderBy_def)
  have sa: "sublist (''order=-'' @ f) q"
    if "fst (buildQuery (orderBy this f (Some asc))) = Inr q" for f
  proof -
    have "sublist (''order=-'' @ f) (''&order=-'' @ f @
           ''&limit='' @ Number_toString (limit (pagination this)) @
           ''&offset='' @ Number_toString (offset (pagination this)))"
      using sublist_appendI [of "''order=-'' @ f" "''&''"] by simp
    then show ?thesis
      using a [OF that] unfolding suffix_def by (metis sublist_in_context append_Nil2)
  qed
  have sd: "sublist (''order='' @ f) q"
    if "fst (buildQuery (orderBy this f (Some desc))) = Inr q" for f
  proof -
    have "sublist (''order='' @ f) (''&order='' @ f @
           ''&limit='' @ Number_toString (limit (pagination this)) @
           ''&offset='' @ Number_toString (offset (pagination this)))"
      using sublist_appendI [of "''order='' @ f" "''&''"] by simp
    then show ?thesis
      using d [OF that] unfolding suffix_def by (metis sublist_in_context append_Nil2)
  qed
  have n: "orderBy this fld None = orderBy this fld (Some desc)"
    by (simp add: orderBy_def)
  have r: "(\<exists>q. fst (buildQuery (orderBy this fld dir)) = Inr q) \<longleftrightarrow>
      (\<exists>q. fst (buildQuery this) = Inr q)"
    by (rule returns_same_filters) (simp add: orderBy_def Let_def)
  show ?thesis
    using a [of fld] d [of fld] sa [of fld] sd [of fld] sa [of "''created_at''"]
      sd [of "''created_at''"] n r fresh_order [of this fld]
    by (simp add: orderBy_def)
qed

theorem orderBy_inverted_symbol_witness:
  "fst (buildQuery (orderBy example_client ''created_at'' (Some asc))) =
     Inr ''?include=&order=-created_at&limit=10&offset=0'' \<and>
   fst (buildQuery (orderBy example_client ''created_at'' None)) =
     Inr ''?include=&order=created_at&limit=10&offset=0'' \<and>
   sublist ''order=-created_at'' ''?include=&order=-created_at&limit=10&offset=0''"
proof -
  have desc: "fst (buildQuery (orderBy example_client ''created_at'' (Some desc))) =
      Inr ''?include=&order=created_at&limit=10&offset=0''"
    by code_simp
  have asc: "fst (buildQuery (orderBy example_client ''created_at'' (Some asc))) =
      Inr ''?include=&order=-created_at&limit=10&offset=0''"
    by code_simp
  note t = orderBy_inverted_symbol
    [of example_client "''created_at''" "''?include=&order=-created_at&limit=10&offset=0''" None]
  have none: "fst (buildQuery (orderBy example_client ''created_at'' None)) =
      Inr ''?include=&order=created_at&limit=10&offset=0''"
    using t desc by simp
  have "sublist ''order=-created_at'' ''?include=&order=-created_at&limit=10&offset=0''"
    using t asc by blast
  with asc none show ?thesis
    by (simp only: simp_thms)
qed

text \<open>
  C6: a second \<^verbatim>\<open>include\<close> replaces the list of the first. After \<^verbatim>\<open>include(r1)\<close> and
  \<^verbatim>\<open>include(r2)\<close> the query begins with \<^verbatim>\<open>?include=\<close>, \<open>r2\<close> joined with commas and the
  \<^verbatim>\<open>&\<close> of the next parameter, and is the query that \<^verbatim>\<open>include(r2)\<close> alone gives; after
  \<^verbatim>\<open>include(['emails'])\<close> and \<^verbatim>\<open>include(['phone_numbers'])\<close> the include parameter is
  \<^verbatim>\<open>include=phone_numbers\<close>. \<^verbatim>\<open>include\<close> has no part in whether a query is built; on a client
  as constructed or reset the query is \<^verbatim>\<open>?include=\<close>, \<open>r2\<close> joined with commas and
  \<^verbatim>\<open>&order=created_at&limit=10&offset=0\<close>.
\<close>

theorem include_replaces:
  "include' (include' this r1) r2 = include' this r2 \<and>
   includes' (include' (include' this r1) r2) = r2 \<and>
   fst (buildQuery (include' (include' this r1) r2)) = fst (buildQuery (include' this r2)) \<and>
   (fst (buildQuery (include' (include' this r1) r2)) = Inr q \<longrightarrow>
      prefix (''?include='' @ join r2 '','' @ ''&'') q) \<and>
   (fst (buildQuery (include' (include' this [''emails'']) [''phone_numbers''])) = Inr q \<longrightarrow>
      prefix ''?include=phone_numbers&'' q) \<and>
   ((\<exists>q. fst (buildQuery (include' (include' this r1) r2)) = Inr q) \<longleftrightarrow>
      (\<exists>q. fst (buildQuery this) = Inr q)) \<and>
   fst (buildQuery (include' (include' (cleared this) r1) r2)) =
     Inr (''?include='' @ join r2 '','' @ ''&order=created_at&limit=10&offset=0'') \<and>
   fst (buildQuery (include' (include' (cleared this) [''emails'']) [''phone_numbers''])) =
     Inr ''?include=phone_numbers&order=created_at&limit=10&offset=0''"
proof -
  have p: "prefix (''?include='' @ join r '','' @ ''&'') q"
    if "fst (buildQuery (include' (include' this p) r)) = Inr q" for p r
    using include_in_query [OF that] by (simp add: include'_def)
  have r: "(\<exists>q. fst (buildQuery (include' (include' this r1) r2)) = Inr q) \<longleftrightarrow>
      (\<exists>q. fst (buildQuery this) = Inr q)"
    by (rule returns_same_filters) (simp add: include'_def)
  show ?thesis
    using p [of r1 r2] p [of "[''emails'']" "[''phone_numbers'']"] r
      fresh_include [of this r1 r2] fresh_include [of this "[''emails'']" "[''phone_numbers'']"]
    by (simp add: include'_def)
qed

theorem include_replaces_witness:
  "fst (buildQuery (include' (include' example_client [''emails'']) [''phone_numbers''])) =
     Inr ''?include=phone_numbers&order=created_at&limit=10&offset=0''"
proof -
  have "fst (buildQuery (include' example_client [''phone_numbers''])) =
      Inr ''?include=phone_numbers&order=created_at&limit=10&offset=0''"
    by code_simp
  then show ?thesis
    using include_replaces [of example_client "[''emails'']" "[''phone_numbers'']"]
    by simp
qed













lemma constructor_pagination:
  assumes "constructor config = Inr client"
  shows "pagination client = \<lparr>limit = Integer 10, offset = Integer 0\<rparr>"
  using assms
  by (auto simp: constructor_def split: option.splits if_splits sum.splits)

lemma pagination_call:
  "\<not> isPaginate c \<Longrightarrow> pagination (call this c) = pagination this"
  by (cases c) (simp_all add: include'_def where'_def orderBy_def Let_def)

lemma pagination_calls:
  "list_all (\<lambda>c. \<not> isPaginate c) calls \<Longrightarrow>
     pagination (foldl call this calls) = pagination this"
  by (induction calls arbitrary: this) (simp_all add: pagination_call)

lemma default_page_in_query:
  assumes "pagination this = \<lparr>limit = Integer 10, offset = Integer 0\<rparr>"
    and "fst (buildQuery this) = Inr q"
  shows "suffix ''&limit=10&offset=0'' q" and "sublist ''limit=10&offset=0'' q"
proof -
  show s: "suffix ''&limit=10&offset=0'' q"
    using page_in_query [OF assms(2)] by (simp add: assms(1) Number_toString_examples)
  show "sublist ''limit=10&offset=0'' q"
    using s by (rule suffix_tl_sublist)
qed

lemma paginate_in_query:
  assumes "fst (buildQuery (paginate this lim off)) = Inr q"
  shows "suffix (''&limit='' @ Number_toString lim @ ''&offset='' @ Number_toString off) q"
  using page_in_query [OF assms] by (simp add: paginate_def)

lemma fresh_page:
  "fst (buildQuery (paginate (cleared this) lim off)) =
     Inr (''?include=&order=created_at&limit='' @ Number_toString lim @
          ''&offset='' @ Number_toString off)"
  by (simp add: no_filters_query paginate_def)

lemma printed_integer:
  "(0 \<le> sint w \<longrightarrow>
      list_all isDigit (Number_toString (Integer w)) \<and>
      numeral_value (Number_toString (Integer w)) = sint w) \<and>
   (sint w < 0 \<longrightarrow>
      (\<exists>digits. Number_toString (Integer w) = CHR ''-'' # digits \<and> list_all isDigit digits \<and>
         numeral_value digits = - sint w))"
  by (simp add: Number_toString.simps decimal_digits numeral_value_decimal)

text \<open>
  C8: after \<^verbatim>\<open>paginate(limit, offset)\<close> the query ends with \<^verbatim>\<open>&limit=\<close>, the limit,
  \<^verbatim>\<open>&offset=\<close> and the offset, each as \<^verbatim>\<open>Number::toString\<close> prints it, so \<^verbatim>\<open>paginate(25, 50)\<close>
  gives \<^verbatim>\<open>limit=25&offset=50\<close>. When no \<^verbatim>\<open>paginate\<close> is among the calls made since the last
  \<^verbatim>\<open>buildQuery\<close> that returned, or since the client was constructed, the query ends with
  \<^verbatim>\<open>&limit=10&offset=0\<close>. \<^verbatim>\<open>paginate\<close> has no part in whether a query is built; on a client
  as constructed or reset the query is \<^verbatim>\<open>?include=&order=created_at&limit=\<close>, the limit,
  \<^verbatim>\<open>&offset=\<close> and the offset. An integer from \<open>-2^53\<close> to \<open>2^53 - 1\<close> prints as the decimal
  digits of its value, after a minus sign when it is negative; any other number as
  \<^verbatim>\<open>Number::toString\<close> prints it, for instance \<^verbatim>\<open>2.5\<close>, \<^verbatim>\<open>1e+21\<close> or \<^verbatim>\<open>NaN\<close>.
\<close>

theorem paginate_limit_offset:
  "(fst (buildQuery (paginate this lim off)) = Inr q \<longrightarrow>
      suffix (''&limit='' @ Number_toString lim @ ''&offset='' @ Number_toString off) q \<and>
      sublist (''limit='' @ Number_toString lim @ ''&offset='' @ Number_toString off) q) \<and>
   (fst (buildQuery (paginate this (Integer 25) (Integer 50))) = Inr q \<longrightarrow>
      sublist ''limit=25&offset=50'' q) \<and>
   ((\<exists>q. fst (buildQuery (paginate this lim off)) = Inr q) \<longleftrightarrow>
      (\<exists>q. fst (buildQuery this) = Inr q)) \<and>
   ((\<exists>before. fst (buildQuery this) = Inr before) \<and>
    list_all (\<lambda>c. \<not> isPaginate c) calls \<and>
    fst (buildQuery (foldl call (snd (buildQuery this)) calls)) = Inr q \<longrightarrow>
      suffix ''&limit=10&offset=0'' q \<and> sublist ''limit=10&offset=0'' q) \<and>
   (constructor config = Inr client \<and> list_all (\<lambda>c. \<not> isPaginate c) calls \<and>
    fst (buildQuery (foldl call client calls)) = Inr q \<longrightarrow>
      suffix ''&limit=10&offset=0'' q \<and> sublist ''limit=10&offset=0'' q) \<and>
   fst (buildQuery (paginate (cleared this) lim off)) =
     Inr (''?include=&order=created_at&limit='' @ Number_toString lim @
          ''&offset='' @ Number_toString off) \<and>
   Number_toString (Other printed) = printed \<and>
   (0 \<le> sint w \<longrightarrow>
      list_all isDigit (Number_toString (Integer w)) \<and>
      numeral_value (Number_toString (Integer w)) = sint w) \<and>
   (sint w < 0 \<longrightarrow>
      (\<exists>digits. Number_toString (Integer w) = CHR ''-'' # digits \<and> list_all isDigit digits \<and>
         numeral_value digits = - sint w))"
proof (intro conjI impI)
  assume q: "fst (buildQuery (paginate this lim off)) = Inr q"
  show s: "suffix (''&limit='' @ Number_toString lim @ ''&offset='' @ Number_toString off) q"
    using q by (rule paginate_in_query)
  have "suffix (CHR ''&'' # (''limit='' @ Number_toString lim @ ''&offset='' @ Number_toString off)) q"
    using s by simp
  then show "sublist (''limit='' @ Number_toString lim @ ''&offset='' @ Number_toString off) q"
    by (rule suffix_tl_sublist)
next
  assume "fst (buildQuery (paginate this (Integer 25) (Integer 50))) = Inr q"
  from paginate_in_query [OF this] have "suffix (CHR ''&'' # ''limit=25&offset=50'') q"
    by (simp add: Number_toString_examples)
  then show "sublist ''limit=25&offset=50'' q"
    by (rule suffix_tl_sublist)
next
  show "(\<exists>q. fst (buildQuery (paginate this lim off)) = Inr q) \<longleftrightarrow>
      (\<exists>q. fst (buildQuery this) = Inr q)"
    by (rule returns_same_filters) (simp add: paginate_def)
next
  assume a: "(\<exists>before. fst (buildQuery this) = Inr before) \<and>
    list_all (\<lambda>c. \<not> isPaginate c) calls \<and>
    fst (buildQuery (foldl call (snd (buildQuery this)) calls)) = Inr q"
  then have no: "list_all (\<lambda>c. \<not> isPaginate c) calls"
    and q: "fst (buildQuery (foldl call (snd (buildQuery this)) calls)) = Inr q"
    by simp_all
  from a have "pagination (snd (buildQuery this)) = \<lparr>limit = Integer 10, offset = Integer 0\<rparr>"
    by (auto simp: buildQuery_state)
  then have "pagination (foldl call (snd (buildQuery this)) calls) =
      \<lparr>limit = Integer 10, offset = Integer 0\<rparr>"
    by (simp add: pagination_calls [OF no])
  then show "suffix ''&limit=10&offset=0'' q" and "sublist ''limit=10&offset=0'' q"
    using q by (rule default_page_in_query)+
next
  assume a: "constructor config = Inr client \<and> list_all (\<lambda>c. \<not> isPaginate c) calls \<and>
    fst (buildQuery (foldl call client calls)) = Inr q"
  then have made: "constructor config = Inr client"
    and no: "list_all (\<lambda>c. \<not> isPaginate c) calls"
    and q: "fst (buildQuery (foldl call client calls)) = Inr q"
    by simp_all
  from made have "pagination client = \<lparr>limit = Integer 10, offset = Integer 0\<rparr>"
    by (rule constructor_pagination)
  then have "pagination (foldl call client calls) = \<lparr>limit = Integer 10, offset = Integer 0\<rparr>"
    by (simp add: pagination_calls [OF no])
  then show "suffix ''&limit=10&offset=0'' q" and "sublist ''limit=10&offset=0'' q"
    using q by (rule default_page_in_query)+
next
  show "fst (buildQuery (paginate (cleared this) lim off)) =
     Inr (''?include=&order=created_at&limit='' @ Number_toString lim @
          ''&offset='' @ Number_toString off)"
    by (rule fresh_page)
next
  show "Number_toString (Other printed) = printed"
    by (simp add: Number_toString.simps)
next
  assume "0 \<le> sint w"
  then show "list_all isDigit (Number_toString (Integer w))"
    and "numeral_value (Number_toString (Integer w)) = sint w"
    using printed_integer [of w] by simp_all
next
  assume "sint w < 0"
  then show "\<exists>digits. Number_toString (Integer w) = CHR ''-'' # digits \<and>
      list_all isDigit digits \<and> numeral_value digits = - sint w"
    using printed_integer [of w] by blast
qed

theorem paginate_limit_offset_witness:
  "fst (buildQuery (paginate example_client (Integer 25) (Integer 50))) =
     Inr ''?include=&order=created_at&limit=25&offset=50'' \<and>
   sublist ''limit=25&offset=50'' ''?include=&order=created_at&limit=25&offset=50'' \<and>
   fst (buildQuery (foldl call (snd (buildQuery (paginate example_client (Integer 25) (Integer 50))))
        [Include [''emails''], Where ''id'' ''='' (JNumber (Integer 1)), OrderBy ''name'' (Some asc)])) =
     Inr ''?include=emails&where[id]=1&order=-name&limit=10&offset=0'' \<and>
   sublist ''limit=10&offset=0'' ''?include=emails&where[id]=1&order=-name&limit=10&offset=0'' \<and>
   fst (buildQuery (paginate example_client (Other ''2.5'') (Other ''NaN''))) =
     Inr ''?include=&order=created_at&limit=2.5&offset=NaN''"
proof -
  let ?c = "paginate example_client (Integer 25) (Integer 50)"
  let ?calls = "[Include [''emails''], Where ''id'' ''='' (JNumber (Integer 1)),
      OrderBy ''name'' (Some asc)]"
  have one: "fst (buildQuery ?c) = Inr ''?include=&order=created_at&limit=25&offset=50''"
    by code_simp
  have two: "fst (buildQuery (foldl call (snd (buildQuery ?c)) ?calls)) =
      Inr ''?include=emails&where[id]=1&order=-name&limit=10&offset=0''"
    by code_simp
  have three: "fst (buildQuery (paginate example_client (Other ''2.5'') (Other ''NaN''))) =
      Inr ''?include=&order=created_at&limit=2.5&offset=NaN''"
    by code_simp
  have chain: "(\<exists>before. fst (buildQuery ?c) = Inr before) \<and>
      list_all (\<lambda>c. \<not> isPaginate c) ?calls \<and>
      fst (buildQuery (foldl call (snd (buildQuery ?c)) ?calls)) =
        Inr ''?include=emails&where[id]=1&order=-name&limit=10&offset=0''"
    using one two by simp
  note first = paginate_limit_offset
    [of example_client "Integer 25" "Integer 50" "''?include=&order=created_at&limit=25&offset=50''",
     THEN conjunct2, THEN conjunct1, rule_format, OF one]
  note second = paginate_limit_offset
    [of ?c "Integer 25" "Integer 50" "''?include=emails&where[id]=1&order=-name&limit=10&offset=0''"
        ?calls,
     THEN conjunct2, THEN conjunct2, THEN conjunct2, THEN conjunct1, rule_format, OF chain,
     THEN conjunct2]
  from one first two second three show ?thesis
    by (intro conjI)
qed

section \<open>Construction: which configurations are accepted\<close>

lemma constructor_version_refused:
  assumes "PcoClientConfig.version config = Some v" and "v \<noteq> []" and "\<not> matches_version v"
  shows "constructor config = Inl (Error ''Invalid version format'')"
  using assms by (simp add: constructor_def)

lemma constructor_personal_access_token:
  assumes "version_accepted config" and "personalAccessToken config = Some pat"
  shows "constructor config =
     (case btoa (credentials config pat) of
        Inl e \<Rightarrow> Inl e
      | Inr encoded \<Rightarrow>
          Inr \<lparr> customApiBaseUrl = PcoClientConfig.customApiBaseUrl config,
                version = (case PcoClientConfig.version config of
                             None \<Rightarrow> None
                           | Some v \<Rightarrow> if v \<noteq> [] then Some v else None),
                authentication = ''Basic '' @ encoded,
                includes' = [], filters = \<lparr>properties = [], prototype = None\<rparr>,
                order = \<lparr>field = ''created_at'', symbol = ''''\<rparr>,
                pagination = \<lparr>limit = Integer 10, offset = Integer 0\<rparr> \<rparr>)"
  using assms by (auto simp: constructor_def split: option.splits sum.splits)

lemma constructor_oauth:
  assumes "version_accepted config" and "personalAccessToken config = None"
    and "token config = Some t"
  shows "constructor config =
     (if validateToken t then
        Inr \<lparr> customApiBaseUrl = PcoClientConfig.customApiBaseUrl config,
              version = (case PcoClientConfig.version config of
                           None \<Rightarrow> None
                         | Some v \<Rightarrow> if v \<noteq> [] then Some v else None),
              authentication = ''Bearer '' @ t,
              includes' = [], filters = \<lparr>properties = [], prototype = None\<rparr>,
              order = \<lparr>field = ''created_at'', symbol = ''''\<rparr>,
              pagination = \<lparr>limit = Integer 10, offset = Integer 0\<rparr> \<rparr>
      else Inl (Error ''Invalid token format''))"
  using assms by (auto simp: constructor_def split: option.splits)

lemma constructor_not_accepted:
  assumes "\<not> version_accepted config"
  shows "constructor config = Inl (Error ''Invalid version format'')"
  using assms by (auto simp: constructor_def split: option.splits)

lemma constructor_ignores_token:
  assumes "personalAccessToken config = Some pat"
  shows "constructor (config\<lparr>token := other\<rparr>) = constructor config"
  using assms by (simp add: constructor_def split: option.splits sum.splits)

lemma btoa_accepts:
  "btoa s = (if list_all (\<lambda>unit. unit \<le> 255) s then Inr (btoa_bytes (map unat s))
             else Inl (InvalidCharacterError ''Invalid character''))"
  by (simp add: btoa_def)

lemma validateToken_iff:
  "validateToken t \<longleftrightarrow>
     (length t = 64 \<and> set t \<subseteq> set ''0123456789abcdef'') \<or>
     (\<exists>h. t = ''pco_tok_'' @ h \<and> length h = 72 \<and> set h \<subseteq> set ''0123456789abcdef'')"
proof -
  have hex: "list_all isHex xs \<longleftrightarrow> set xs \<subseteq> set ''0123456789abcdef''" for xs
    unfolding list_all_iff isHex_def by blast
  have "(length t = 80 \<and> take 8 t = ''pco_tok_'' \<and> list_all isHex (drop 8 t)) \<longleftrightarrow>
      (\<exists>h. t = ''pco_tok_'' @ h \<and> length h = 72 \<and> list_all isHex h)"
  proof
    assume a: "length t = 80 \<and> take 8 t = ''pco_tok_'' \<and> list_all isHex (drop 8 t)"
    then have "t = ''pco_tok_'' @ drop 8 t"
      by (metis append_take_drop_id)
    moreover from a have "length (drop 8 t) = 72"
      by simp
    ultimately show "\<exists>h. t = ''pco_tok_'' @ h \<and> length h = 72 \<and> list_all isHex h"
      using a by blast
  next
    assume "\<exists>h. t = ''pco_tok_'' @ h \<and> length h = 72 \<and> list_all isHex h"
    then obtain h where "t = ''pco_tok_'' @ h" "length h = 72" "list_all isHex h"
      by blast
    then show "length t = 80 \<and> take 8 t = ''pco_tok_'' \<and> list_all isHex (drop 8 t)"
      by simp
  qed
  then show ?thesis
    unfolding validateToken_def hex by blast
qed

lemma legacy_token_valid: "validateToken legacy_token"
  by (simp add: validateToken_def isHex_def)

lemma example_version: "matches_version ''2024-06-09''"
  by (simp add: matches_version_def isDigit_def)

lemma example_credentials:
  "list_all (\<lambda>unit. unit \<le> 255) (units ''app'' @ units '':'' @ units ''secret'')"
  "btoa_bytes (map unat (units ''app'' @ units '':'' @ units ''secret'')) = ''YXBwOnNlY3JldA==''"
  "btoa (units ''app'' @ units '':'' @ units ''secret'') = Inr ''YXBwOnNlY3JldA==''"
  by (simp_all add: btoa_def units_def b64_def)

text \<open>
  C10, as the code has it. A configuration with both a \<^verbatim>\<open>personalAccessToken\<close> and a \<^verbatim>\<open>token\<close>
  key is handled as a personal-access-token configuration. The token is never read: any
  other token, or none, gives the same outcome, which is never \<^verbatim>\<open>Invalid token format\<close>.
  The version check comes first and can throw \<^verbatim>\<open>Invalid version format\<close>; then \<^verbatim>\<open>btoa\<close> throws
  when \<^verbatim>\<open>appId + ':' + personalAccessToken\<close> holds a code unit above \<open>0xFF\<close>; otherwise the
  client is constructed, with the Authorization value \<^verbatim>\<open>Basic\<close> and the base64 of that
  string. \<^verbatim>\<open>Invalid configuration\<close> is thrown only for a configuration with neither key.
\<close>

theorem both_keys_use_personal_access_token:
  "(personalAccessToken config = Some pat \<and> token config = Some t \<longrightarrow>
      (\<forall>other. constructor (config\<lparr>token := other\<rparr>) = constructor config) \<and>
      constructor config \<noteq> Inl (Error ''Invalid token format'') \<and>
      constructor config \<noteq> Inl (Error ''Invalid configuration'') \<and>
      constructor config =
        (if \<not> version_accepted config then Inl (Error ''Invalid version format'')
         else if \<not> list_all (\<lambda>unit. unit \<le> 255) (credentials config pat)
           then Inl (InvalidCharacterError ''Invalid character'')
         else
           Inr \<lparr> customApiBaseUrl = PcoClientConfig.customApiBaseUrl config,
                 version = (case PcoClientConfig.version config of
                              None \<Rightarrow> None
                            | Some v \<Rightarrow> if v \<noteq> [] then Some v else None),
                 authentication = ''Basic '' @ btoa_bytes (map unat (credentials config pat)),
                 includes' = [], filters = \<lparr>properties = [], prototype = None\<rparr>,
                 order = \<lparr>field = ''created_at'', symbol = ''''\<rparr>,
                 pagination = \<lparr>limit = Integer 10, offset = Integer 0\<rparr> \<rparr>) \<and>
      (\<forall>client. constructor config = Inr client \<longrightarrow>
         authentication client = ''Basic '' @ btoa_bytes (map unat (credentials config pat)))) \<and>
   (constructor config = Inl (Error ''Invalid configuration'') \<longrightarrow>
      personalAccessToken config = None \<and> token config = None)"
proof (intro conjI impI allI)
  assume both: "personalAccessToken config = Some pat \<and> token config = Some t"
  then have pat: "personalAccessToken config = Some pat"
    by simp
  show "constructor (config\<lparr>token := other\<rparr>) = constructor config" for other
    using pat by (rule constructor_ignores_token)
  show exact: "constructor config =
        (if \<not> version_accepted config then Inl (Error ''Invalid version format'')
         else if \<not> list_all (\<lambda>unit. unit \<le> 255) (credentials config pat)
           then Inl (InvalidCharacterError ''Invalid character'')
         else
           Inr \<lparr> customApiBaseUrl = PcoClientConfig.customApiBaseUrl config,
                 version = (case PcoClientConfig.version config of
                              None \<Rightarrow> None
                            | Some v \<Rightarrow> if v \<noteq> [] then Some v else None),
                 authentication = ''Basic '' @ btoa_bytes (map unat (credentials config pat)),
                 includes' = [], filters = \<lparr>properties = [], prototype = None\<rparr>,
                 order = \<lparr>field = ''created_at'', symbol = ''''\<rparr>,
                 pagination = \<lparr>limit = Integer 10, offset = Integer 0\<rparr> \<rparr>)"
  proof (cases "version_accepted config")
    case False
    with constructor_not_accepted [of config] show ?thesis
      by simp
  next
    case True
    from constructor_personal_access_token [OF True pat] True show ?thesis
      by (simp add: btoa_accepts)
  qed
  show "constructor config \<noteq> Inl (Error ''Invalid token format'')"
    by (subst exact) simp
  show "constructor config \<noteq> Inl (Error ''Invalid configuration'')"
    by (subst exact) simp
  show "authentication client = ''Basic '' @ btoa_bytes (map unat (credentials config pat))"
    if "constructor config = Inr client" for client
    using that by (subst (asm) exact) (auto split: if_splits)
next
  assume "constructor config = Inl (Error ''Invalid configuration'')"
  then show "personalAccessToken config = None" and "token config = None"
    by (auto simp: constructor_def btoa_def split: option.splits if_splits sum.splits)
qed

theorem both_keys_use_personal_access_token_witness:
  "constructor both_keys_config = Inr example_client \<and>
   constructor (both_keys_config\<lparr>token := None\<rparr>) = constructor both_keys_config \<and>
   constructor (oauth_config ''not-a-token'' None\<lparr>token := None\<rparr>) =
     Inl (Error ''Invalid configuration'') \<and>
   token (oauth_config ''not-a-token'' None\<lparr>token := None\<rparr>) = None"
proof -
  note both = both_keys_use_personal_access_token
    [of both_keys_config "units ''secret''" "''not-a-token''", THEN conjunct1, rule_format]
  have keys: "personalAccessToken both_keys_config = Some (units ''secret'') \<and>
      token both_keys_config = Some ''not-a-token''"
    by simp
  have built: "constructor both_keys_config = Inr example_client"
    using both [OF keys, THEN conjunct2, THEN conjunct2, THEN conjunct2, THEN conjunct1]
    by (simp add: example_version concat_operand_def units_def b64_def)
  have same: "constructor (both_keys_config\<lparr>token := None\<rparr>) = constructor both_keys_config"
    by (rule both [OF keys, THEN conjunct1, rule_format])
  have neither: "constructor (oauth_config ''not-a-token'' None\<lparr>token := None\<rparr>) =
      Inl (Error ''Invalid configuration'')"
    by (simp add: constructor_def)
  from both_keys_use_personal_access_token
    [of "oauth_config ''not-a-token'' None\<lparr>token := None\<rparr>" "units ''secret''" "''not-a-token''",
     THEN conjunct2, rule_format, OF neither]
  have "token (oauth_config ''not-a-token'' None\<lparr>token := None\<rparr>) = None"
    by (rule conjunct2)
  with built same neither show ?thesis
    by (intro conjI)
qed

theorem both_keys_use_personal_access_token_counterexample:
  "constructor (both_keys_config\<lparr>PcoClientConfig.version := Some ''v2''\<rparr>) =
     Inl (Error ''Invalid version format'') \<and>
   constructor (both_keys_config\<lparr>personalAccessToken := Some [0x20AC]\<rparr>) =
     Inl (InvalidCharacterError ''Invalid character'')"
  by (simp add: constructor_def matches_version_def isDigit_def btoa_def units_def
      concat_operand_def)

text \<open>
  C3, as the code has it: for an OAuth configuration (a \<^verbatim>\<open>token\<close> key and no
  \<^verbatim>\<open>personalAccessToken\<close> key) that passes the version check, construction succeeds
  exactly when the token is 64 characters of \<^verbatim>\<open>0-9a-f\<close>, or \<^verbatim>\<open>pco_tok_\<close> followed by 72 of
  them; any other token throws \<^verbatim>\<open>Invalid token format\<close>; on success the Authorization
  value is \<^verbatim>\<open>Bearer\<close>, a space and the token. A configuration that fails the version check
  throws \<^verbatim>\<open>Invalid version format\<close> whatever the token is.
\<close>

theorem oauth_token_format:
  "(validateToken t \<longleftrightarrow>
      (length t = 64 \<and> set t \<subseteq> set ''0123456789abcdef'') \<or>
      (\<exists>h. t = ''pco_tok_'' @ h \<and> length h = 72 \<and> set h \<subseteq> set ''0123456789abcdef'')) \<and>
   (personalAccessToken config = None \<and> token config = Some t \<and> version_accepted config \<longrightarrow>
      ((\<exists>client. constructor config = Inr client) \<longleftrightarrow> validateToken t) \<and>
      (\<not> validateToken t \<longrightarrow> constructor config = Inl (Error ''Invalid token format'')) \<and>
      (\<forall>client. constructor config = Inr client \<longrightarrow> authentication client = ''Bearer '' @ t)) \<and>
   (\<not> version_accepted config \<longrightarrow> constructor config = Inl (Error ''Invalid version format''))"
proof (intro conjI impI)
  show "validateToken t \<longleftrightarrow>
      (length t = 64 \<and> set t \<subseteq> set ''0123456789abcdef'') \<or>
      (\<exists>h. t = ''pco_tok_'' @ h \<and> length h = 72 \<and> set h \<subseteq> set ''0123456789abcdef'')"
    by (rule validateToken_iff)
next
  assume "personalAccessToken config = None \<and> token config = Some t \<and> version_accepted config"
  then have c: "constructor config =
     (if validateToken t then
        Inr \<lparr> customApiBaseUrl = PcoClientConfig.customApiBaseUrl config,
              version = (case PcoClientConfig.version config of
                           None \<Rightarrow> None
                         | Some v \<Rightarrow> if v \<noteq> [] then Some v else None),
              authentication = ''Bearer '' @ t,
              includes' = [], filters = \<lparr>properties = [], prototype = None\<rparr>,
              order = \<lparr>field = ''created_at'', symbol = ''''\<rparr>,
              pagination = \<lparr>limit = Integer 10, offset = Integer 0\<rparr> \<rparr>
      else Inl (Error ''Invalid token format''))"
    using constructor_oauth [of config t] by blast
  show "(\<exists>client. constructor config = Inr client) \<longleftrightarrow> validateToken t"
    by (subst c) simp
  show "constructor config = Inl (Error ''Invalid token format'')" if "\<not> validateToken t"
    using that by (subst c) simp
  show "\<forall>client. constructor config = Inr client \<longrightarrow> authentication client = ''Bearer '' @ t"
    by (subst c) (auto split: if_splits)
next
  assume "\<not> version_accepted config"
  then show "constructor config = Inl (Error ''Invalid version format'')"
    by (rule constructor_not_accepted)
qed

theorem oauth_token_format_witness:
  "(\<exists>client. constructor (oauth_config legacy_token (Some ''2024-06-09'')) = Inr client \<and>
      authentication client =
        ''Bearer 0123456789abcdef0123456789abcdef0123456789abcdef0123456789abcdef'') \<and>
   constructor (oauth_config ''not-a-token'' (Some ''2024-06-09'')) =
     Inl (Error ''Invalid token format'')"
proof -
  have ok: "personalAccessToken (oauth_config tok (Some ''2024-06-09'')) = None \<and>
      token (oauth_config tok (Some ''2024-06-09'')) = Some tok \<and>
      version_accepted (oauth_config tok (Some ''2024-06-09''))" for tok
    by (simp add: example_version)
  note good = oauth_token_format
    [of legacy_token "oauth_config legacy_token (Some ''2024-06-09'')",
     THEN conjunct2, THEN conjunct1, rule_format, OF ok]
  note bad = oauth_token_format
    [of "''not-a-token''" "oauth_config ''not-a-token'' (Some ''2024-06-09'')",
     THEN conjunct2, THEN conjunct1, rule_format, OF ok]
  from good [THEN conjunct1] legacy_token_valid
  obtain client where
    client: "constructor (oauth_config legacy_token (Some ''2024-06-09'')) = Inr client"
    by blast
  with good [THEN conjunct2, THEN conjunct2, rule_format, OF client]
  have first: "\<exists>client. constructor (oauth_config legacy_token (Some ''2024-06-09'')) = Inr client \<and>
      authentication client =
        ''Bearer 0123456789abcdef0123456789abcdef0123456789abcdef0123456789abcdef''"
    by simp
  have "\<not> validateToken ''not-a-token''"
    by (simp add: validateToken_def)
  from bad [THEN conjunct2, THEN conjunct1, rule_format, OF this] first
  show ?thesis
    by (intro conjI)
qed

theorem oauth_token_format_counterexample:
  "validateToken legacy_token \<and>
   constructor (oauth_config legacy_token (Some ''v2'')) = Inl (Error ''Invalid version format'')"
  by (simp add: legacy_token_valid constructor_def matches_version_def)

section \<open>The version header\<close>

lemma digits_subset: "list_all isDigit xs \<longleftrightarrow> set xs \<subseteq> set ''0123456789''"
  unfolding list_all_iff isDigit_def by blast

lemma matches_version_iff:
  "matches_version s \<longleftrightarrow>
     (\<exists>y m d. s = y @ ''-'' @ m @ ''-'' @ d \<and> length y = 4 \<and> length m = 2 \<and> length d = 2 \<and>
        set (y @ m @ d) \<subseteq> set ''0123456789'')"
proof
  assume a: "matches_version s"
  then have len: "length s = 10"
    and dash: "s ! 4 = CHR ''-''" "s ! 7 = CHR ''-''"
    and dig: "list_all isDigit (take 4 s)" "list_all isDigit (take 2 (drop 5 s))"
      "list_all isDigit (drop 8 s)"
    unfolding matches_version_def by blast+
  have d4: "drop 4 s = CHR ''-'' # drop 5 s"
    using len Cons_nth_drop_Suc [of 4 s] by (simp add: dash)
  have d7: "drop 7 s = CHR ''-'' # drop 8 s"
    using len Cons_nth_drop_Suc [of 7 s] by (simp add: dash)
  have "take 4 s @ ''-'' @ take 2 (drop 5 s) @ ''-'' @ drop 8 s =
      take 4 s @ CHR ''-'' # (take 2 (drop 5 s) @ drop 2 (drop 5 s))"
    by (simp add: d7)
  also have "\<dots> = take 4 s @ drop 4 s"
    by (simp only: d4 append_take_drop_id)
  also have "\<dots> = s"
    by (rule append_take_drop_id)
  finally have eq: "take 4 s @ ''-'' @ take 2 (drop 5 s) @ ''-'' @ drop 8 s = s" .
  show "\<exists>y m d. s = y @ ''-'' @ m @ ''-'' @ d \<and> length y = 4 \<and> length m = 2 \<and>
      length d = 2 \<and> set (y @ m @ d) \<subseteq> set ''0123456789''"
  proof (intro exI conjI)
    show "s = take 4 s @ ''-'' @ take 2 (drop 5 s) @ ''-'' @ drop 8 s"
      by (rule eq [symmetric])
    show "length (take 4 s) = 4" "length (take 2 (drop 5 s)) = 2" "length (drop 8 s) = 2"
      using len by simp_all
    show "set (take 4 s @ take 2 (drop 5 s) @ drop 8 s) \<subseteq> set ''0123456789''"
      using dig unfolding digits_subset set_append Un_subset_iff by blast
  qed
next
  assume "\<exists>y m d. s = y @ ''-'' @ m @ ''-'' @ d \<and> length y = 4 \<and> length m = 2 \<and> length d = 2 \<and>
      set (y @ m @ d) \<subseteq> set ''0123456789''"
  then obtain y m d where s: "s = y @ ''-'' @ m @ ''-'' @ d"
    and len: "length y = 4" "length m = 2" "length d = 2"
    and dig: "set (y @ m @ d) \<subseteq> set ''0123456789''"
    by blast
  from dig have "list_all isDigit y" "list_all isDigit m" "list_all isDigit d"
    unfolding digits_subset set_append Un_subset_iff by blast+
  then show "matches_version s"
    unfolding s matches_version_def using len by (simp add: nth_append)
qed

lemma matches_version_nonempty: "matches_version v \<Longrightarrow> v \<noteq> []"
  by (auto simp: matches_version_def)

lemma version_header_sent:
  assumes "version this = Some v" and "v \<noteq> []"
  shows "headers (snd (fetch_input this endpoint options)) ''X-PCO-API-Version'' = Some v"
  using assms by (simp add: fetch_input_def Let_def)

lemma version_header_absent:
  assumes "version this = None"
  shows "headers (snd (fetch_input this endpoint options)) ''X-PCO-API-Version'' =
     headers options ''X-PCO-API-Version''"
  using assms by (simp add: fetch_input_def Let_def)

lemma request_expecting:
  assumes "version this = Some v" and "v \<noteq> []"
  shows "request (expecting v fetch) this endpoint options = request fetch this endpoint options"
proof -
  obtain url init where i: "fetch_input this endpoint options = (url, init)"
    by (cases "fetch_input this endpoint options")
  with version_header_sent [OF assms, of endpoint options]
  have "headers init ''X-PCO-API-Version'' = Some v"
    by simp
  then show ?thesis
    by (simp add: request_def i)
qed

lemma version_buildQuery: "version (snd (buildQuery this)) = version this"
  by (simp add: buildQuery_state split: sum.splits)

lemma version_call: "version (call this c) = version this"
  by (cases c) (simp_all add: include'_def where'_def orderBy_def paginate_def Let_def)

lemma verbs_expecting:
  assumes "version this = Some v" and "v \<noteq> []"
  shows "get (expecting v fetch) this endpoint = get fetch this endpoint"
    and "post (expecting v fetch) JSON_stringify this endpoint b =
         post fetch JSON_stringify this endpoint b"
    and "patch (expecting v fetch) JSON_stringify this endpoint b =
         patch fetch JSON_stringify this endpoint b"
    and "delete (expecting v fetch) this endpoint = delete fetch this endpoint"
    and "getPerson (expecting v fetch) this = getPerson fetch this"
proof -
  obtain outcome after where q: "buildQuery this = (outcome, after)"
    by (cases "buildQuery this")
  have "version after = Some v"
    using version_buildQuery [of this] assms(1) by (simp add: q)
  then have r: "request (expecting v fetch) after e opts = request fetch after e opts" for e opts
    using assms(2) by (rule request_expecting)
  show "get (expecting v fetch) this endpoint = get fetch this endpoint"
    by (cases outcome) (simp_all only: get_def q prod.case sum.case r)
  show "post (expecting v fetch) JSON_stringify this endpoint b =
         post fetch JSON_stringify this endpoint b"
    by (cases outcome) (simp_all only: post_def q prod.case sum.case r)
  show "patch (expecting v fetch) JSON_stringify this endpoint b =
         patch fetch JSON_stringify this endpoint b"
    by (cases outcome) (simp_all only: patch_def q prod.case sum.case r)
  show "delete (expecting v fetch) this endpoint = delete fetch this endpoint"
    by (cases outcome) (simp_all only: delete_def q prod.case sum.case r)
  show "getPerson (expecting v fetch) this = getPerson fetch this"
    by (cases outcome) (simp_all only: getPerson_def q prod.case sum.case r)
qed

lemma constructor_accepts:
  "(\<exists>client. constructor config = Inr client) \<longleftrightarrow>
     version_accepted config \<and> authentication_accepted config"
  by (auto simp: constructor_def btoa_def split: option.splits if_splits sum.splits)

lemma constructor_keeps_version:
  assumes "PcoClientConfig.version config = Some v" and "matches_version v"
    and "authentication_accepted config"
  shows "\<exists>client. constructor config = Inr client \<and> version client = Some v"
  using assms matches_version_nonempty [of v]
  by (auto simp: constructor_def btoa_def split: option.splits)

lemma constructor_unauthenticated:
  assumes "PcoClientConfig.version config = Some v" and "matches_version v"
    and "\<not> authentication_accepted config"
  shows "constructor config =
     (case personalAccessToken config of
        Some pat \<Rightarrow> Inl (InvalidCharacterError ''Invalid character'')
      | None \<Rightarrow> (case token config of
                   Some t \<Rightarrow> Inl (Error ''Invalid token format'')
                 | None \<Rightarrow> Inl (Error ''Invalid configuration'')))"
  using assms matches_version_nonempty [of v]
  by (auto simp: constructor_def btoa_def split: option.splits)

lemma constructor_empty_version:
  assumes "PcoClientConfig.version config = Some []"
  shows "constructor config = constructor (config\<lparr>PcoClientConfig.version := None\<rparr>)"
    and "constructor config = Inr client \<Longrightarrow> version client = None"
  using assms by (auto simp: constructor_def split: option.splits if_splits sum.splits)

text \<open>
  C2, as the code has it. \<^verbatim>\<open>matches_version\<close> is the form \<^verbatim>\<open>YYYY-MM-DD\<close>. A configuration
  whose version has that form gives a client exactly when its authentication fields are
  accepted: a \<^verbatim>\<open>personalAccessToken\<close> key whose credentials \<^verbatim>\<open>btoa\<close> can encode (no code unit
  above \<open>0xFF\<close>), or no such key and a well-formed \<^verbatim>\<open>token\<close>; otherwise construction throws
  \<^verbatim>\<open>InvalidCharacterError\<close>, \<^verbatim>\<open>Invalid token format\<close> or \<^verbatim>\<open>Invalid configuration\<close>. The client
  holds the version; every client state that holds it passes the header
  \<^verbatim>\<open>X-PCO-API-Version\<close> with exactly that value to \<^verbatim>\<open>fetch\<close>, in \<^verbatim>\<open>request\<close> and so in every terminal
  request that reaches \<^verbatim>\<open>fetch\<close>, and the builder calls and \<^verbatim>\<open>buildQuery\<close> leave the version as
  it is. Any other non-empty version throws \<^verbatim>\<open>Invalid version format\<close>. The empty string is
  not checked: the configuration is handled as if it had no version, and no version
  header is added.
\<close>

theorem version_header:
  fixes fetch :: fetch and JSON_stringify :: "'b stringify"
  shows
  "(matches_version v \<longleftrightarrow>
      (\<exists>y m d. v = y @ ''-'' @ m @ ''-'' @ d \<and> length y = 4 \<and> length m = 2 \<and> length d = 2 \<and>
         set (y @ m @ d) \<subseteq> set ''0123456789'')) \<and>
   (PcoClientConfig.version config = Some v \<and> matches_version v \<and>
    authentication_accepted config \<longrightarrow>
      (\<exists>client. constructor config = Inr client \<and> version client = Some v)) \<and>
   (PcoClientConfig.version config = Some v \<and> matches_version v \<and>
    \<not> authentication_accepted config \<longrightarrow>
      constructor config =
        (case personalAccessToken config of
           Some pat \<Rightarrow> Inl (InvalidCharacterError ''Invalid character'')
         | None \<Rightarrow> (case token config of
                      Some t \<Rightarrow> Inl (Error ''Invalid token format'')
                    | None \<Rightarrow> Inl (Error ''Invalid configuration'')))) \<and>
   (version this = Some v \<and> matches_version v \<longrightarrow>
      headers (snd (fetch_input this endpoint options)) ''X-PCO-API-Version'' = Some v \<and>
      request (expecting v fetch) this endpoint options = request fetch this endpoint options \<and>
      get (expecting v fetch) this endpoint = get fetch this endpoint \<and>
      post (expecting v fetch) JSON_stringify this endpoint b =
        post fetch JSON_stringify this endpoint b \<and>
      patch (expecting v fetch) JSON_stringify this endpoint b =
        patch fetch JSON_stringify this endpoint b \<and>
      delete (expecting v fetch) this endpoint = delete fetch this endpoint \<and>
      getPerson (expecting v fetch) this = getPerson fetch this \<and>
      version (call this c) = Some v \<and>
      version (snd (buildQuery this)) = Some v) \<and>
   (PcoClientConfig.version config = Some v \<and> v \<noteq> [] \<and> \<not> matches_version v \<longrightarrow>
      constructor config = Inl (Error ''Invalid version format'')) \<and>
   (PcoClientConfig.version config = Some [] \<longrightarrow>
      constructor config = constructor (config\<lparr>PcoClientConfig.version := None\<rparr>) \<and>
      (\<forall>client. constructor config = Inr client \<longrightarrow> version client = None)) \<and>
   (version this = None \<longrightarrow>
      headers (snd (fetch_input this endpoint options)) ''X-PCO-API-Version'' =
        headers options ''X-PCO-API-Version'') \<and>
   ((\<exists>client. constructor config = Inr client) \<longleftrightarrow>
      version_accepted config \<and> authentication_accepted config)"
proof (intro conjI impI allI)
  show "matches_version v \<longleftrightarrow>
      (\<exists>y m d. v = y @ ''-'' @ m @ ''-'' @ d \<and> length y = 4 \<and> length m = 2 \<and> length d = 2 \<and>
         set (y @ m @ d) \<subseteq> set ''0123456789'')"
    by (rule matches_version_iff)
next
  assume "PcoClientConfig.version config = Some v \<and> matches_version v \<and>
    authentication_accepted config"
  then show "\<exists>client. constructor config = Inr client \<and> version client = Some v"
    using constructor_keeps_version [of config v] by blast
next
  assume "PcoClientConfig.version config = Some v \<and> matches_version v \<and>
    \<not> authentication_accepted config"
  then show "constructor config =
        (case personalAccessToken config of
           Some pat \<Rightarrow> Inl (InvalidCharacterError ''Invalid character'')
         | None \<Rightarrow> (case token config of
                      Some t \<Rightarrow> Inl (Error ''Invalid token format'')
                    | None \<Rightarrow> Inl (Error ''Invalid configuration'')))"
    using constructor_unauthenticated [of config v] by blast
next
  assume "version this = Some v \<and> matches_version v"
  then have held: "version this = Some v" and full: "v \<noteq> []"
    using matches_version_nonempty [of v] by blast+
  show "headers (snd (fetch_input this endpoint options)) ''X-PCO-API-Version'' = Some v"
    using held full by (rule version_header_sent)
  show "request (expecting v fetch) this endpoint options = request fetch this endpoint options"
    using held full by (rule request_expecting)
  show "get (expecting v fetch) this endpoint = get fetch this endpoint"
    using held full by (rule verbs_expecting(1))
  show "post (expecting v fetch) JSON_stringify this endpoint b =
        post fetch JSON_stringify this endpoint b"
    using held full by (rule verbs_expecting(2))
  show "patch (expecting v fetch) JSON_stringify this endpoint b =
        patch fetch JSON_stringify this endpoint b"
    using held full by (rule verbs_expecting(3))
  show "delete (expecting v fetch) this endpoint = delete fetch this endpoint"
    using held full by (rule verbs_expecting(4))
  show "getPerson (expecting v fetch) this = getPerson fetch this"
    using held full by (rule verbs_expecting(5))
  show "version (call this c) = Some v"
    using held by (simp only: version_call)
  show "version (snd (buildQuery this)) = Some v"
    using held by (simp only: version_buildQuery)
next
  assume "PcoClientConfig.version config = Some v \<and> v \<noteq> [] \<and> \<not> matches_version v"
  then show "constructor config = Inl (Error ''Invalid version format'')"
    using constructor_version_refused [of config v] by blast
next
  assume e: "PcoClientConfig.version config = Some []"
  show "constructor config = constructor (config\<lparr>PcoClientConfig.version := None\<rparr>)"
    using e by (rule constructor_empty_version(1))
  show "version client = None" if "constructor config = Inr client" for client
    using e that by (rule constructor_empty_version(2))
next
  assume "version this = None"
  then show "headers (snd (fetch_input this endpoint options)) ''X-PCO-API-Version'' =
        headers options ''X-PCO-API-Version''"
    by (rule version_header_absent)
next
  show "(\<exists>client. constructor config = Inr client) \<longleftrightarrow>
      version_accepted config \<and> authentication_accepted config"
    by (rule constructor_accepts)
qed

theorem version_header_witness:
  "(\<exists>client. constructor example_config = Inr client \<and> version client = Some ''2024-06-09'') \<and>
   headers (snd (fetch_input example_client ''/people/v2/people''
      \<lparr>method' = None, headers = Map.empty, body = None\<rparr>)) ''X-PCO-API-Version'' =
     Some ''2024-06-09'' \<and>
   getPerson (expecting ''2024-06-09'' offline) example_client = getPerson offline example_client \<and>
   constructor (example_config\<lparr>PcoClientConfig.version := Some ''June 2024''\<rparr>) =
     Inl (Error ''Invalid version format'') \<and>
   constructor (example_config\<lparr>personalAccessToken := Some [0x20AC]\<rparr>) =
     Inl (InvalidCharacterError ''Invalid character'')"
proof -
  have accepted: "PcoClientConfig.version example_config = Some ''2024-06-09'' \<and>
      matches_version ''2024-06-09'' \<and> authentication_accepted example_config"
    by (simp add: example_version units_def concat_operand_def)
  have unencodable: "PcoClientConfig.version
        (example_config\<lparr>personalAccessToken := Some [0x20AC]\<rparr>) = Some ''2024-06-09'' \<and>
      matches_version ''2024-06-09'' \<and>
      \<not> authentication_accepted (example_config\<lparr>personalAccessToken := Some [0x20AC]\<rparr>)"
    by (simp add: example_version units_def concat_operand_def)
  have held: "version example_client = Some ''2024-06-09'' \<and> matches_version ''2024-06-09''"
    by (simp add: example_version)
  have refused: "PcoClientConfig.version
        (example_config\<lparr>PcoClientConfig.version := Some ''June 2024''\<rparr>) = Some ''June 2024'' \<and>
      ''June 2024'' \<noteq> [] \<and> \<not> matches_version ''June 2024''"
    by (simp add: matches_version_def)
  note made = version_header
    [of "''2024-06-09''" example_config example_client "''/people/v2/people''"
        "\<lparr>method' = None, headers = Map.empty, body = None\<rparr>" offline
        "\<lambda>b. Inr (Some ''{}'')" JNull "Include []",
     THEN conjunct2, THEN conjunct1, rule_format, OF accepted]
  from version_header
    [of "''2024-06-09''" "example_config\<lparr>personalAccessToken := Some [0x20AC]\<rparr>"
        example_client "''/people/v2/people''"
        "\<lparr>method' = None, headers = Map.empty, body = None\<rparr>" offline
        "\<lambda>b. Inr (Some ''{}'')" JNull "Include []",
     THEN conjunct2, THEN conjunct2, THEN conjunct1, rule_format, OF unencodable]
  have unmade: "constructor (example_config\<lparr>personalAccessToken := Some [0x20AC]\<rparr>) =
      Inl (InvalidCharacterError ''Invalid character'')"
    by simp
  note sent = version_header
    [of "''2024-06-09''" example_config example_client "''/people/v2/people''"
        "\<lparr>method' = None, headers = Map.empty, body = None\<rparr>" offline
        "\<lambda>b. Inr (Some ''{}'')" JNull "Include []",
     THEN conjunct2, THEN conjunct2, THEN conjunct2, THEN conjunct1, rule_format, OF held]
  note thrown = version_header
    [of "''June 2024''" "example_config\<lparr>PcoClientConfig.version := Some ''June 2024''\<rparr>"
        example_client "''/people/v2/people''"
        "\<lparr>method' = None, headers = Map.empty, body = None\<rparr>" offline
        "\<lambda>b. Inr (Some ''{}'')" JNull "Include []",
     THEN conjunct2, THEN conjunct2, THEN conjunct2, THEN conjunct2, THEN conjunct1,
     rule_format, OF refused]
  have person: "getPerson (expecting ''2024-06-09'' offline) example_client =
      getPerson offline example_client"
    using sent by blast
  show ?thesis
    using made sent [THEN conjunct1] person thrown unmade by (intro conjI)
qed

theorem version_header_counterexample:
  "\<not> matches_version '''' \<and>
   constructor (example_config\<lparr>PcoClientConfig.version := Some ''''\<rparr>) =
     Inr (example_client\<lparr>version := None\<rparr>) \<and>
   headers (snd (fetch_input (example_client\<lparr>version := None\<rparr>) ''/people/v2/people''
      \<lparr>method' = None, headers = Map.empty, body = None\<rparr>)) ''X-PCO-API-Version'' = None"
  by (simp add: matches_version_def constructor_def fetch_input_def btoa_def units_def b64_def
      concat_operand_def)

section \<open>The outcome of a request\<close>

lemma request_answered:
  assumes "fetch (fst (fetch_input this endpoint options)) (snd (fetch_input this endpoint options)) =
      Inr response"
  shows "request fetch this endpoint options =
     (if ok response then json response else Inl (Error (failure_message response)))"
proof -
  obtain url init where i: "fetch_input this endpoint options = (url, init)"
    by (cases "fetch_input this endpoint options")
  with assms have "fetch url init = Inr response"
    by simp
  then show ?thesis
    by (simp add: request_def i)
qed

lemma request_unanswered:
  assumes "fetch (fst (fetch_input this endpoint options)) (snd (fetch_input this endpoint options)) =
      Inl e"
  shows "request fetch this endpoint options = Inl e"
proof -
  obtain url init where i: "fetch_input this endpoint options = (url, init)"
    by (cases "fetch_input this endpoint options")
  with assms have "fetch url init = Inl e"
    by simp
  then show ?thesis
    by (simp add: request_def i)
qed

lemma getPerson_answered:
  "fst (getPerson (answering response) this) =
     (case fst (buildQuery this) of
        Inl thrown \<Rightarrow> Inl thrown
      | Inr query \<Rightarrow>
          if ok response then json response else Inl (Error (failure_message response)))"
  by (simp add: getPerson_def request_def split: prod.splits sum.splits)

lemma getPerson_throws:
  assumes "fst (buildQuery this) = Inl thrown"
  shows "getPerson fetch this = (Inl thrown, this)"
  using assms buildQuery_state [of this]
  by (cases "buildQuery this") (simp add: getPerson_def)

lemma status_in_message:
  "sublist (Number_toString (Integer (ucast (status response)))) (failure_message response)"
  by (rule sublist_appendI)

lemma status_number: "sint (ucast (w :: 16 word) :: 54 word) = int (unat w)"
  by transfer (simp add: signed_take_bit_take_bit)

lemma status_printed:
  "Number_toString (Integer (ucast (w :: 16 word))) = decimal (unat w)"
  by (simp add: Number_toString.simps status_number)

text \<open>
  C4, as the code has it. When the transport answers with a response, \<^verbatim>\<open>request\<close> fails
  with the error \<^verbatim>\<open>API request failed with status ...\<close>, whose message holds the status
  code and the status text, exactly when the status is outside 200 to 299. For a status
  within 200 to 299 the outcome is that of \<^verbatim>\<open>response.json()\<close>: the parsed body unchanged
  when the body is JSON, and the parser's error when it is not. So a 404 fails with a
  message that contains \<^verbatim>\<open>404\<close>, and a 200 with the body
  \<^verbatim>\<open>{"data":[],"meta":{"total_count":0}}\<close> makes \<^verbatim>\<open>getPerson\<close> resolve to that object, on a
  client as constructed or reset and on every client whose query can be built; when
  \<^verbatim>\<open>buildQuery\<close> throws, \<^verbatim>\<open>getPerson\<close> throws the same error and nothing is sent. When the
  transport itself fails, its error is passed on.
\<close>

theorem request_outcome:
  "(fetch (fst (fetch_input this endpoint options)) (snd (fetch_input this endpoint options)) =
      Inr response \<longrightarrow>
      (\<not> ok response \<longrightarrow>
         request fetch this endpoint options = Inl (Error (failure_message response)) \<and>
         sublist (Number_toString (Integer (ucast (status response))))
           (failure_message response)) \<and>
      (ok response \<longrightarrow> request fetch this endpoint options = json response) \<and>
      (ok response \<and> json response = Inr parsed \<longrightarrow>
         request fetch this endpoint options = Inr parsed)) \<and>
   (fetch (fst (fetch_input this endpoint options)) (snd (fetch_input this endpoint options)) =
      Inl e \<longrightarrow> request fetch this endpoint options = Inl e) \<and>
   (ok response \<longleftrightarrow> 200 \<le> status response \<and> status response \<le> 299) \<and>
   Number_toString (Integer (ucast (status response))) = decimal (unat (status response)) \<and>
   (\<exists>message. request (answering \<lparr>status = 404, statusText = text, json = outcome\<rparr>)
        this endpoint options = Inl (Error message) \<and> sublist ''404'' message) \<and>
   fst (getPerson (answering \<lparr>status = 200, statusText = text, json = Inr parsed\<rparr>) this) =
     (case fst (buildQuery this) of Inl thrown \<Rightarrow> Inl thrown | Inr query \<Rightarrow> Inr parsed) \<and>
   fst (getPerson (answering \<lparr>status = 200, statusText = text, json = Inr parsed\<rparr>)
     (cleared this)) = Inr parsed \<and>
   (constructor config = Inr client \<longrightarrow>
      fst (getPerson (answering \<lparr>status = 200, statusText = text, json = Inr empty_people\<rparr>)
        client) = Inr empty_people) \<and>
   (fst (buildQuery this) = Inl thrown \<longrightarrow> getPerson fetch this = (Inl thrown, this))"
proof (intro conjI impI)
  assume answered:
    "fetch (fst (fetch_input this endpoint options)) (snd (fetch_input this endpoint options)) =
      Inr response"
  note r = request_answered [of fetch this endpoint options response, OF answered]
  show "request fetch this endpoint options = Inl (Error (failure_message response))"
    if "\<not> ok response"
    using that by (simp only: r if_False)
  show "sublist (Number_toString (Integer (ucast (status response))))
      (failure_message response)"
    by (rule status_in_message)
  show "request fetch this endpoint options = json response" if "ok response"
    using that by (simp only: r if_True)
  show "request fetch this endpoint options = Inr parsed"
    if "ok response \<and> json response = Inr parsed"
    using that by (simp only: r if_True)
next
  assume "fetch (fst (fetch_input this endpoint options)) (snd (fetch_input this endpoint options)) =
      Inl e"
  then show "request fetch this endpoint options = Inl e"
    by (rule request_unanswered [of fetch this endpoint options e])
next
  show "ok response \<longleftrightarrow> 200 \<le> status response \<and> status response \<le> 299"
    by (simp add: ok_def)
next
  show "Number_toString (Integer (ucast (status response))) = decimal (unat (status response))"
    by (rule status_printed)
next
  let ?r = "\<lparr>status = 404, statusText = text, json = outcome\<rparr>"
  have "request (answering ?r) this endpoint options = Inl (Error (failure_message ?r))"
    using request_answered [of "answering ?r" this endpoint options ?r] by (simp add: ok_def)
  moreover have "sublist ''404'' (failure_message ?r)"
    using status_in_message [of ?r] by (simp add: Number_toString.simps decimal.simps digit_char_def)
  ultimately show "\<exists>message. request (answering ?r) this endpoint options = Inl (Error message) \<and>
      sublist ''404'' message"
    by blast
next
  show "fst (getPerson (answering \<lparr>status = 200, statusText = text, json = Inr parsed\<rparr>) this) =
     (case fst (buildQuery this) of Inl thrown \<Rightarrow> Inl thrown | Inr query \<Rightarrow> Inr parsed)"
    by (simp add: getPerson_answered ok_def split: sum.splits)
next
  obtain q where q: "fst (buildQuery (cleared this)) = Inr q"
    using cleared_returns [of this] by blast
  show "fst (getPerson (answering \<lparr>status = 200, statusText = text, json = Inr parsed\<rparr>)
     (cleared this)) = Inr parsed"
    by (simp add: getPerson_answered [of _ "cleared this"] q ok_def)
next
  assume c: "constructor config = Inr client"
  obtain q where "fst (buildQuery (cleared client)) = Inr q"
    using cleared_returns [of client] by blast
  then have q: "fst (buildQuery client) = Inr q"
    by (simp only: constructor_builder_defaults [OF c])
  show "fst (getPerson (answering \<lparr>status = 200, statusText = text, json = Inr empty_people\<rparr>)
        client) = Inr empty_people"
    by (simp add: getPerson_answered [of _ client] q ok_def)
next
  assume "fst (buildQuery this) = Inl thrown"
  then show "getPerson fetch this = (Inl thrown, this)"
    by (rule getPerson_throws)
qed

theorem request_outcome_witness:
  "request (answering \<lparr>status = 404, statusText = ''Not Found'', json = Inr JNull\<rparr>)
     example_client ''/people/v2/people'' \<lparr>method' = None, headers = Map.empty, body = None\<rparr> =
     Inl (Error (''API request failed with status 404'' @ [CHR 0x0A] @ ''Not Found'' @ [CHR 0x0A] @
       ''More details: https://developer.planning.center/docs/#/overview/errors'')) \<and>
   request (answering \<lparr>status = 200, statusText = ''OK'', json = Inr empty_people\<rparr>)
     example_client ''/people/v2/people'' \<lparr>method' = None, headers = Map.empty, body = None\<rparr> =
     Inr empty_people \<and>
   request offline
     example_client ''/people/v2/people'' \<lparr>method' = None, headers = Map.empty, body = None\<rparr> =
     Inl (TypeError ''fetch failed'') \<and>
   fst (getPerson (answering \<lparr>status = 200, statusText = ''OK'', json = Inr empty_people\<rparr>)
     example_client) = Inr empty_people \<and>
   getPerson (answering \<lparr>status = 200, statusText = ''OK'', json = Inr empty_people\<rparr>)
     (where' example_client ''id'' ''='' unprintable) =
     (Inl (TypeError ''Cannot convert object to primitive value''),
      where' example_client ''id'' ''='' unprintable)"
proof -
  let ?init = "\<lparr>method' = None, headers = Map.empty, body = None\<rparr>"
  let ?missing = "\<lparr>status = 404, statusText = ''Not Found'', json = Inr JNull\<rparr>"
  let ?found = "\<lparr>status = 200, statusText = ''OK'', json = Inr empty_people\<rparr>"
  let ?stuck = "where' example_client ''id'' ''='' unprintable"
  have a: "answering r (fst (fetch_input example_client ''/people/v2/people'' ?init))
      (snd (fetch_input example_client ''/people/v2/people'' ?init)) = Inr r" for r
    by simp
  have b: "offline (fst (fetch_input example_client ''/people/v2/people'' ?init))
      (snd (fetch_input example_client ''/people/v2/people'' ?init)) = Inl (TypeError ''fetch failed'')"
    by simp
  have bad: "\<not> ok ?missing" and good: "ok ?found \<and> json ?found = Inr empty_people"
    by (simp_all add: ok_def)
  have made: "constructor example_config = Inr example_client"
    by (simp add: constructor_def example_version btoa_def units_def b64_def concat_operand_def)
  have thrown: "fst (buildQuery ?stuck) = Inl (TypeError ''Cannot convert object to primitive value'')"
    by code_simp
  from request_outcome
    [of "answering ?missing" example_client "''/people/v2/people''" ?init ?missing JNull,
     THEN conjunct1, rule_format, OF a, THEN conjunct1, rule_format, OF bad, THEN conjunct1]
  have first: "request (answering ?missing) example_client ''/people/v2/people'' ?init =
      Inl (Error (''API request failed with status 404'' @ [CHR 0x0A] @ ''Not Found'' @ [CHR 0x0A] @
        ''More details: https://developer.planning.center/docs/#/overview/errors''))"
    by (simp add: Number_toString.simps decimal.simps digit_char_def)
  note second = request_outcome
    [of "answering ?found" example_client "''/people/v2/people''" ?init ?found empty_people,
     THEN conjunct1, rule_format, OF a, THEN conjunct2, THEN conjunct2, rule_format, OF good]
  note third = request_outcome
    [of offline example_client "''/people/v2/people''" ?init ?found empty_people
        "TypeError ''fetch failed''",
     THEN conjunct2, THEN conjunct1, rule_format, OF b]
  note rest = request_outcome
    [of "answering ?found" ?stuck "''/people/v2/people''" ?init ?found empty_people
        "TypeError ''fetch failed''" "''OK''" "Inr JNull" example_config example_client
        "TypeError ''Cannot convert object to primitive value''",
     THEN conjunct2, THEN conjunct2, THEN conjunct2, THEN conjunct2, THEN conjunct2,
     THEN conjunct2, THEN conjunct2]
  note fourth = rest [THEN conjunct1, rule_format, OF made]
  note fifth = rest [THEN conjunct2, rule_format, OF thrown]
  from first second third fourth fifth show ?thesis
    by (intro conjI)
qed

theorem request_outcome_counterexample:
  "ok no_content \<and>
   request (answering no_content) example_client ''/people/v2/people/1''
     \<lparr>method' = Some ''DELETE'', headers = Map.empty, body = None\<rparr> =
     Inl (SyntaxError ''Unexpected end of JSON input'') \<and>
   fst (delete (answering no_content) example_client ''/people/v2/people/1'') =
     Inl (SyntaxError ''Unexpected end of JSON input'')"
  by (simp add: ok_def request_def delete_def buildQuery_def Let_def for_in_def own_order_def
      split: prod.splits)

end
